theory Spec2Isabelle
  imports Complex_Main
begin

section \<open>Python strings\<close>

text \<open>
  A Python \<^verbatim>\<open>str\<close> is a sequence of Unicode code points: slicing, \<^verbatim>\<open>split\<close> and
  \<^verbatim>\<open>in\<close> count code points, not bytes. A string is therefore a list of code points;
  the degree sign U+00B0 is the single element 176. \<open>py_str\<close> embeds an ASCII literal.
\<close>

type_synonym ustr = "nat list"

definition py_str :: "string \<Rightarrow> ustr" where
  "py_str s = map of_char s"

definition degree_sign :: nat where
  "degree_sign = 176"

text \<open>
  \<^verbatim>\<open>s[-2:]\<close>, \<^verbatim>\<open>s[:-2]\<close> and \<^verbatim>\<open>s[:-1]\<close>: slices never raise, they clip at the ends
  of the string.
\<close>

definition last_two :: "ustr \<Rightarrow> ustr" where
  "last_two s = drop (length s - 2) s"

definition drop_last_two :: "ustr \<Rightarrow> ustr" where
  "drop_last_two s = take (length s - 2) s"

definition drop_last :: "ustr \<Rightarrow> ustr" where
  "drop_last s = take (length s - 1) s"

text \<open>
  \<^verbatim>\<open>str.lower()\<close>, on the ASCII capitals. Python also lowers capitals beyond ASCII; the
  program only compares the result with \<^verbatim>\<open>"ft"\<close>, and no code point other than
  \<^verbatim>\<open>F\<close>, \<^verbatim>\<open>f\<close>, \<^verbatim>\<open>T\<close>, \<^verbatim>\<open>t\<close> has an \<^verbatim>\<open>f\<close> or a \<^verbatim>\<open>t\<close> in its lower case, so the
  comparison is the one Python makes.
\<close>

definition lower_char :: "nat \<Rightarrow> nat" where
  "lower_char c = (if 65 \<le> c \<and> c \<le> 90 then c + 32 else c)"

definition py_lower :: "ustr \<Rightarrow> ustr" where
  "py_lower s = map lower_char s"

text \<open>
  \<^verbatim>\<open>str.isspace\<close> of one code point (the Unicode white space Python strips), and
  \<^verbatim>\<open>str.strip()\<close>.
\<close>

definition py_isspace :: "nat \<Rightarrow> bool" where
  "py_isspace c = ((9 \<le> c \<and> c \<le> 13) \<or> (28 \<le> c \<and> c \<le> 32) \<or> c = 133 \<or> c = 160
     \<or> c = 5760 \<or> (8192 \<le> c \<and> c \<le> 8202) \<or> c = 8232 \<or> c = 8233 \<or> c = 8239
     \<or> c = 8287 \<or> c = 12288)"

definition py_strip :: "ustr \<Rightarrow> ustr" where
  "py_strip s = rev (dropWhile py_isspace (rev (dropWhile py_isspace s)))"

text \<open>\<^verbatim>\<open>s.split(sep)\<close> for a separator of one code point: one more part than separators.\<close>

fun py_split :: "nat \<Rightarrow> ustr \<Rightarrow> ustr list" where
  "py_split sep [] = [[]]"
| "py_split sep (c # cs) =
     (if c = sep then [] # py_split sep cs
      else (c # hd (py_split sep cs)) # tl (py_split sep cs))"

section \<open>Python exceptions\<close>

text \<open>
  The exceptions the program can raise, as values. \<open>ValueError_unpack n\<close> is the
  \<^verbatim>\<open>ValueError\<close> of unpacking a sequence into \<open>n\<close> names (too many or not enough
  values); \<open>ValueError_float s\<close> is \<^verbatim>\<open>float(s)\<close> failing (could not convert string to
  float); \<open>IndexError\<close> is indexing an empty string; \<open>StopIteration\<close> is \<^verbatim>\<open>next\<close> on an
  exhausted reader; \<open>ZeroDivisionError\<close> is a float division by zero.
\<close>

datatype error =
    StopIteration
  | IndexError
  | ValueError_unpack nat
  | ValueError_float ustr
  | ZeroDivisionError

definition bind :: "error + 'a \<Rightarrow> ('a \<Rightarrow> error + 'b) \<Rightarrow> error + 'b" where
  "bind m f = (case m of Inl e \<Rightarrow> Inl e | Inr x \<Rightarrow> f x)"

section \<open>Python floats\<close>

text \<open>
  A Python float is an IEEE 754 binary64 value: a NaN, a signed infinity, or a signed
  finite value (the sign kept apart, so that there are two zeros). \<open>Finite neg q\<close> has
  the magnitude \<open>q \<ge> 0\<close>, an exact rational.
\<close>

datatype pyfloat = Nan | Infinity bool | Finite bool rat

text \<open>A finite float: neither a NaN nor an infinity, its magnitude not negative.\<close>

fun is_finite :: "pyfloat \<Rightarrow> bool" where
  "is_finite (Finite s q) = (0 \<le> q)"
| "is_finite x = False"

text \<open>
  The number of binary digits of a positive integer, and \<open>\<lfloor>log\<^sub>2 q\<rfloor>\<close> of a positive
  rational.
\<close>

function bitlen :: "int \<Rightarrow> int" where
  "bitlen a = (if a \<le> 0 then 0 else 1 + bitlen (a div 2))"
  by pat_completeness auto
termination
  by (relation "measure nat") auto

declare bitlen.simps [simp del]

definition ilog2 :: "rat \<Rightarrow> int" where
  "ilog2 q = (if 1 \<le> q then bitlen \<lfloor>q\<rfloor> - 1 else - bitlen (\<lceil>1 / q\<rceil> - 1))"

text \<open>Rounding to the nearest integer, ties to the even one.\<close>

definition round_half_even :: "rat \<Rightarrow> int" where
  "round_half_even x =
     (let f = \<lfloor>x\<rfloor>; r = x - of_int f
      in if r < 1 / 2 then f
         else if 1 / 2 < r then f + 1
         else if even f then f else f + 1)"

text \<open>
  Rounding a magnitude \<open>q \<ge> 0\<close> to binary64, to nearest and ties to even: 53 significant
  bits, the exponent of the last bit no lower than \<open>-1074\<close> (subnormal numbers), and an
  infinity from \<open>2\<^sup>1\<^sup>0\<^sup>2\<^sup>4\<close> on.
\<close>

definition round_double :: "bool \<Rightarrow> rat \<Rightarrow> pyfloat" where
  "round_double s q =
     (if q = 0 then Finite s 0
      else let u = 2 powi (max (ilog2 q) (- 1022) - 52);
               r = of_int (round_half_even (q / u)) * u
           in if 2 ^ 1024 \<le> r then Infinity s else Finite s r)"

text \<open>The value of a finite float as a signed rational.\<close>

definition signed :: "bool \<Rightarrow> rat \<Rightarrow> rat" where
  "signed s q = (if s then - q else q)"

text \<open>
  The float operators. Python raises \<^verbatim>\<open>ZeroDivisionError\<close> on a zero divisor; nothing
  else raises, an overflow gives an infinity.
\<close>

fun py_mul :: "pyfloat \<Rightarrow> pyfloat \<Rightarrow> pyfloat" where
  "py_mul (Finite s q) (Finite t r) = round_double (s \<noteq> t) (q * r)"
| "py_mul (Finite s q) (Infinity t) = (if q = 0 then Nan else Infinity (s \<noteq> t))"
| "py_mul (Infinity s) (Finite t r) = (if r = 0 then Nan else Infinity (s \<noteq> t))"
| "py_mul (Infinity s) (Infinity t) = Infinity (s \<noteq> t)"
| "py_mul x y = Nan"

fun py_truediv :: "pyfloat \<Rightarrow> pyfloat \<Rightarrow> error + pyfloat" where
  "py_truediv (Finite s q) (Finite t r) =
     (if r = 0 then Inl ZeroDivisionError else Inr (round_double (s \<noteq> t) (q / r)))"
| "py_truediv (Infinity s) (Finite t r) =
     (if r = 0 then Inl ZeroDivisionError else Inr (Infinity (s \<noteq> t)))"
| "py_truediv Nan (Finite t r) = (if r = 0 then Inl ZeroDivisionError else Inr Nan)"
| "py_truediv (Finite s q) (Infinity t) = Inr (Finite (s \<noteq> t) 0)"
| "py_truediv x y = Inr Nan"

fun py_add :: "pyfloat \<Rightarrow> pyfloat \<Rightarrow> pyfloat" where
  "py_add (Finite s q) (Finite t r) =
     (let v = signed s q + signed t r
      in if v = 0 then Finite (s \<and> t) 0 else round_double (v < 0) \<bar>v\<bar>)"
| "py_add (Finite s q) (Infinity t) = Infinity t"
| "py_add (Infinity s) (Finite t r) = Infinity s"
| "py_add (Infinity s) (Infinity t) = (if s = t then Infinity s else Nan)"
| "py_add x y = Nan"

fun py_neg :: "pyfloat \<Rightarrow> pyfloat" where
  "py_neg (Finite s q) = Finite (\<not> s) q"
| "py_neg (Infinity s) = Infinity (\<not> s)"
| "py_neg Nan = Nan"

definition py_sub :: "pyfloat \<Rightarrow> pyfloat \<Rightarrow> pyfloat" where
  "py_sub x y = py_add x (py_neg y)"

text \<open>The number a finite float stands for.\<close>

fun float_value :: "pyfloat \<Rightarrow> rat" where
  "float_value (Finite s q) = signed s q"
| "float_value x = 0"

subsection \<open>\<^verbatim>\<open>float(s)\<close>\<close>

text \<open>
  \<^verbatim>\<open>float\<close> of a string reads, between optional white space, an optional sign and then
  \<^verbatim>\<open>inf\<close>, \<^verbatim>\<open>infinity\<close> or \<^verbatim>\<open>nan\<close> in any case, or a decimal number: digits with an
  optional point and an optional exponent, at least one digit before or after the point,
  single underscores allowed between two digits. Digits are the Unicode decimal digits
  (category Nd of Unicode 14, blocks of ten from each zero below); the white space is
  the ASCII white space and the Unicode white space beyond ASCII. The value is the
  nearest float. Anything else raises \<^verbatim>\<open>ValueError\<close>.
\<close>

definition decimal_zeros :: "nat list" where
  "decimal_zeros =
    [48, 1632, 1776, 1984, 2406, 2534, 2662, 2790, 2918, 3046, 3174, 3302, 3430,
     3558, 3664, 3792, 3872, 4160, 4240, 6112, 6160, 6470, 6608, 6784, 6800, 6992,
     7088, 7232, 7248, 42528, 43216, 43264, 43472, 43504, 43600, 44016, 65296, 66720,
     68912, 69734, 69872, 69942, 70096, 70384, 70736, 70864, 71248, 71360, 71472,
     71904, 72016, 72784, 73040, 73120, 92768, 92864, 93008, 120782, 120792, 120802,
     120812, 120822, 123200, 123632, 125264, 130032]"

definition decimal_of :: "nat \<Rightarrow> nat option" where
  "decimal_of c =
     (case filter (\<lambda>z. z \<le> c \<and> c < z + 10) decimal_zeros of
        [] \<Rightarrow> None
      | z # zs \<Rightarrow> Some (c - z))"

definition float_isspace :: "nat \<Rightarrow> bool" where
  "float_isspace c = ((9 \<le> c \<and> c \<le> 13) \<or> c = 32 \<or> (127 \<le> c \<and> py_isspace c))"

definition float_strip :: "ustr \<Rightarrow> ustr" where
  "float_strip s = rev (dropWhile float_isspace (rev (dropWhile float_isspace s)))"

fun skip_underscore :: "ustr \<Rightarrow> ustr" where
  "skip_underscore (a # c # cs) =
     (if a = 95 \<and> decimal_of c \<noteq> None then c # cs else a # c # cs)"
| "skip_underscore s = s"

lemma length_skip_underscore: "length (skip_underscore s) \<le> length s"
  by (induction s rule: skip_underscore.induct) auto

text \<open>The digits at the front of a string (their values), and what follows them.\<close>

function digitpart :: "ustr \<Rightarrow> nat list \<times> ustr" where
  "digitpart [] = ([], [])"
| "digitpart (c # cs) =
     (case decimal_of c of
        None \<Rightarrow> ([], c # cs)
      | Some d \<Rightarrow> (let (ds, r) = digitpart (skip_underscore cs) in (d # ds, r)))"
  by pat_completeness auto
termination
  by (relation "measure length") (auto simp: length_skip_underscore less_Suc_eq_le)

definition digits_value :: "nat list \<Rightarrow> nat" where
  "digits_value ds = foldl (\<lambda>a d. 10 * a + d) 0 ds"

text \<open>The exponent part: nothing, or \<^verbatim>\<open>e\<close>, an optional sign and digits to the end.\<close>

definition parse_exponent :: "ustr \<Rightarrow> int option" where
  "parse_exponent s =
     (case s of
        [] \<Rightarrow> Some 0
      | c # cs \<Rightarrow>
          if c = 101 \<or> c = 69 then
            (let (neg, body) =
                   (case cs of
                      [] \<Rightarrow> (False, [])
                    | a # as \<Rightarrow> if a = 45 then (True, as)
                                else if a = 43 then (False, as) else (False, cs));
                 (ds, r) = digitpart body
             in if ds \<noteq> [] \<and> r = []
                then Some (if neg then - int (digits_value ds) else int (digits_value ds))
                else None)
          else None)"

definition parse_number :: "bool \<Rightarrow> ustr \<Rightarrow> pyfloat option" where
  "parse_number neg s =
     (let (ip, r1) = digitpart s;
          (fp, r2) = (case r1 of
                        [] \<Rightarrow> ([], [])
                      | c # cs \<Rightarrow> if c = 46 then digitpart cs else ([], r1))
      in if ip = [] \<and> fp = [] then None
         else (case parse_exponent r2 of
                 None \<Rightarrow> None
               | Some ex \<Rightarrow>
                   Some (round_double neg
                     (of_nat (digits_value (ip @ fp)) * 10 powi (ex - int (length fp))))))"

definition parse_float :: "ustr \<Rightarrow> pyfloat option" where
  "parse_float s =
     (let (neg, body) =
            (case s of
               [] \<Rightarrow> (False, [])
             | a # as \<Rightarrow> if a = 45 then (True, as)
                         else if a = 43 then (False, as) else (False, s))
      in if py_lower body = py_str ''inf'' \<or> py_lower body = py_str ''infinity''
         then Some (Infinity neg)
         else if py_lower body = py_str ''nan'' then Some Nan
         else parse_number neg body)"

definition py_float :: "ustr \<Rightarrow> error + pyfloat" where
  "py_float s =
     (case parse_float (float_strip s) of
        None \<Rightarrow> Inl (ValueError_float s)
      | Some x \<Rightarrow> Inr x)"

subsection \<open>The format \<^verbatim>\<open>.2f\<close>\<close>

text \<open>
  \<^verbatim>\<open>f"{x:.2f}"\<close> rounds the exact value of \<open>x\<close> to two decimals, ties to even, and writes
  the sign (of a zero too), the integer part, a point and two digits; an infinity is
  \<^verbatim>\<open>inf\<close> or \<^verbatim>\<open>-inf\<close>, a NaN is \<^verbatim>\<open>nan\<close>.
\<close>

function digits :: "int \<Rightarrow> ustr" where
  "digits n = (if n < 10 then [nat (48 + n)] else digits (n div 10) @ [nat (48 + n mod 10)])"
  by pat_completeness auto
termination
  by (relation "measure nat") auto

declare digits.simps [simp del]

definition format_2f :: "pyfloat \<Rightarrow> ustr" where
  "format_2f x =
     (case x of
        Nan \<Rightarrow> py_str ''nan''
      | Infinity s \<Rightarrow> (if s then py_str ''-inf'' else py_str ''inf'')
      | Finite s q \<Rightarrow>
          (let n = round_half_even (q * 100)
           in (if s then py_str ''-'' else []) @ digits (n div 100) @ py_str ''.''
              @ [nat (48 + (n mod 100) div 10), nat (48 + n mod 10)]))"

text \<open>
  A field written with exactly two decimals: an optional minus sign, one or more ASCII
  digits, a point, two ASCII digits.
\<close>

definition is_digit :: "nat \<Rightarrow> bool" where
  "is_digit c = (48 \<le> c \<and> c \<le> 57)"

definition two_decimals :: "ustr \<Rightarrow> bool" where
  "two_decimals s =
     (let b = (if take 1 s = [45] then drop 1 s else s); n = length b
      in 4 \<le> n \<and> list_all is_digit (take (n - 3) b) \<and> b ! (n - 3) = 46
         \<and> is_digit (b ! (n - 2)) \<and> is_digit (b ! (n - 1)))"

section \<open>The conversion functions\<close>

text \<open>
  \<^verbatim>\<open>main.py\<close> imports \<^verbatim>\<open>to_F\<close>, \<^verbatim>\<open>to_C\<close>, \<^verbatim>\<open>to_ft\<close> and \<^verbatim>\<open>to_m\<close> from the package
  \<^verbatim>\<open>convertor\<close>. \<^verbatim>\<open>convert_data\<close> is modelled over any four such functions from a float
  to a float or an exception.
\<close>

record convertor =
  to_F :: "pyfloat \<Rightarrow> error + pyfloat"
  to_C :: "pyfloat \<Rightarrow> error + pyfloat"
  to_ft :: "pyfloat \<Rightarrow> error + pyfloat"
  to_m :: "pyfloat \<Rightarrow> error + pyfloat"

text \<open>
  Modelled from the spec: the package \<^verbatim>\<open>convertor\<close> (modules \<^verbatim>\<open>temperature\<close> and
  \<^verbatim>\<open>distance\<close>) is not among the sources. The spec gives
  \<^verbatim>\<open>metersToFeet(m) = m * 3.28084\<close>, \<^verbatim>\<open>feetToMeters(ft) = ft / 3.28084\<close>,
  \<^verbatim>\<open>celsiusToFahrenheit(c) = c * 9/5 + 32\<close> and \<^verbatim>\<open>fahrenheitToCelsius(f) = (f - 32) * 5/9\<close>,
  read as Python float expressions (left to right, each operation rounded).
\<close>

definition float_literal :: "rat \<Rightarrow> pyfloat" where
  "float_literal q = round_double False q"

definition meters_to_feet :: "pyfloat \<Rightarrow> error + pyfloat" where
  "meters_to_feet m = Inr (py_mul m (float_literal (328084 / 100000)))"

definition feet_to_meters :: "pyfloat \<Rightarrow> error + pyfloat" where
  "feet_to_meters ft = py_truediv ft (float_literal (328084 / 100000))"

definition celsius_to_fahrenheit :: "pyfloat \<Rightarrow> error + pyfloat" where
  "celsius_to_fahrenheit c =
     bind (py_truediv (py_mul c (float_literal 9)) (float_literal 5))
       (\<lambda>x. Inr (py_add x (float_literal 32)))"

definition fahrenheit_to_celsius :: "pyfloat \<Rightarrow> error + pyfloat" where
  "fahrenheit_to_celsius f =
     py_truediv (py_mul (py_sub f (float_literal 32)) (float_literal 5)) (float_literal 9)"

definition spec_convertor :: convertor where
  "spec_convertor =
     \<lparr>to_F = celsius_to_fahrenheit, to_C = fahrenheit_to_celsius,
      to_ft = meters_to_feet, to_m = feet_to_meters\<rparr>"

section \<open>\<^verbatim>\<open>convert_data\<close>\<close>

text \<open>
  The body of the loop over the rows, in the order of the source. A row is the list of
  fields the CSV reader yields. Lines 57 to 60: the value and the unit of the distance.
\<close>

definition parse_distance :: "ustr \<Rightarrow> error + (ustr \<times> ustr)" where
  "parse_distance distance =
     (if py_lower (last_two distance) = py_str ''ft''
      then Inr (drop_last_two distance, py_str ''ft'')
      else if distance = [] then Inl IndexError
      else Inr (drop_last distance, [last distance]))"

text \<open>Lines 62 to 64: the reading split at the degree sign into exactly two parts.\<close>

definition parse_reading :: "ustr \<Rightarrow> error + (ustr \<times> ustr)" where
  "parse_reading reading =
     (case py_split degree_sign reading of
        [temp_value, temp_unit] \<Rightarrow> Inr (temp_value, degree_sign # py_strip temp_unit)
      | _ \<Rightarrow> Inl (ValueError_unpack 2))"

text \<open>Lines 67 to 74.\<close>

definition convert_distance ::
  "convertor \<Rightarrow> ustr \<Rightarrow> ustr \<Rightarrow> ustr \<Rightarrow> ustr \<Rightarrow> error + ustr" where
  "convert_distance cv target_dist_unit dist_value dist_unit distance =
     (if target_dist_unit = py_str ''m'' \<and> dist_unit = py_str ''ft'' then
        bind (py_float dist_value) (\<lambda>x.
        bind (to_m cv x) (\<lambda>converted_distance.
        Inr (format_2f converted_distance @ py_str ''m'')))
      else if target_dist_unit = py_str ''f'' \<and> dist_unit = py_str ''m'' then
        bind (py_float dist_value) (\<lambda>x.
        bind (to_ft cv x) (\<lambda>converted_distance.
        Inr (format_2f converted_distance @ py_str ''ft'')))
      else Inr distance)"

text \<open>Lines 77 to 84.\<close>

definition convert_temperature ::
  "convertor \<Rightarrow> ustr \<Rightarrow> ustr \<Rightarrow> ustr \<Rightarrow> ustr \<Rightarrow> error + ustr" where
  "convert_temperature cv target_temp_unit temp_value temp_unit reading =
     (if target_temp_unit = py_str ''C'' \<and> 70 \<in> set temp_unit then
        bind (py_float temp_value) (\<lambda>x.
        bind (to_C cv x) (\<lambda>converted_temp.
        Inr (format_2f converted_temp @ degree_sign # py_str ''C'')))
      else if target_temp_unit = py_str ''F'' \<and> 67 \<in> set temp_unit then
        bind (py_float temp_value) (\<lambda>x.
        bind (to_F cv x) (\<lambda>converted_temp.
        Inr (format_2f converted_temp @ degree_sign # py_str ''F'')))
      else Inr reading)"

text \<open>Lines 56 to 86: one row, from its three fields to the row handed to the writer.\<close>

definition convert_row :: "convertor \<Rightarrow> ustr \<Rightarrow> ustr \<Rightarrow> ustr list \<Rightarrow> error + ustr list" where
  "convert_row cv target_temp_unit target_dist_unit row =
     (case row of
        [date, distance, reading] \<Rightarrow>
          bind (parse_distance distance) (\<lambda>(dist_value, dist_unit).
          bind (parse_reading reading) (\<lambda>(temp_value, temp_unit).
          bind (convert_distance cv target_dist_unit dist_value dist_unit distance)
            (\<lambda>new_distance.
          bind (convert_temperature cv target_temp_unit temp_value temp_unit reading)
            (\<lambda>new_reading.
          Inr [date, new_distance, new_reading]))))
      | _ \<Rightarrow> Inl (ValueError_unpack 3))"

text \<open>
  The loop of line 55. The state is the list of rows written so far; an exception leaves
  the loop with what has been written (the \<^verbatim>\<open>with\<close> statement closes the file).
\<close>

fun write_rows ::
  "convertor \<Rightarrow> ustr \<Rightarrow> ustr \<Rightarrow> ustr list list \<Rightarrow> ustr list list
     \<Rightarrow> ustr list list \<times> error option" where
  "write_rows cv target_temp_unit target_dist_unit written [] = (written, None)"
| "write_rows cv target_temp_unit target_dist_unit written (row # rows) =
     (case convert_row cv target_temp_unit target_dist_unit row of
        Inl e \<Rightarrow> (written, Some e)
      | Inr new_row \<Rightarrow>
          write_rows cv target_temp_unit target_dist_unit (written @ [new_row]) rows)"

text \<open>
  \<^verbatim>\<open>convert_data\<close>: the input file is the list of rows its CSV reader yields, the header
  first, each row the list of its fields with the quotes of the file removed; the result
  is the list of rows handed to the CSV writer, in the order written, and the exception
  that ended the run, if one did. The bytes of the two files (quoting, line ends) are
  the \<^verbatim>\<open>csv\<close> module's and are not modelled. An empty input raises at \<^verbatim>\<open>next(reader)\<close>,
  before the header is written.
\<close>

definition convert_data ::
  "convertor \<Rightarrow> ustr list list \<Rightarrow> ustr \<Rightarrow> ustr \<Rightarrow> ustr list list \<times> error option" where
  "convert_data cv input_rows target_temp_unit target_dist_unit =
     (case input_rows of
        [] \<Rightarrow> ([], Some StopIteration)
      | header # rows \<Rightarrow> write_rows cv target_temp_unit target_dist_unit [header] rows)"

section \<open>Example rows\<close>

text \<open>
  The rows of the spec's scenarios: the header, and the row
  \<^verbatim>\<open>2024-01-01,41m,10\<degree>C\<close>.
\<close>

definition example_header :: "ustr list" where
  "example_header = [py_str ''Date'', py_str ''Distance'', py_str ''Reading'']"

definition example_row :: "ustr list" where
  "example_row =
     [py_str ''2024-01-01'', py_str ''41m'', py_str ''10'' @ degree_sign # py_str ''C'']"

section \<open>Evaluating the string operations\<close>

lemmas string_defs =
  py_str_def degree_sign_def last_two_def drop_last_two_def drop_last_def py_lower_def
  lower_char_def py_strip_def py_isspace_def

lemmas row_defs =
  convert_row_def parse_distance_def parse_reading_def convert_distance_def
  convert_temperature_def bind_def example_header_def example_row_def

lemma py_split_no_sep: "sep \<notin> set s \<Longrightarrow> py_split sep s = [s]"
  by (induction s) auto

lemma parse_reading_no_degree:
  "degree_sign \<notin> set reading \<Longrightarrow> parse_reading reading = Inl (ValueError_unpack 2)"
  by (simp add: parse_reading_def py_split_no_sep)

lemma parse_distance_empty: "parse_distance [] = Inl IndexError"
  by (simp add: parse_distance_def string_defs)

lemma parse_distance_nonempty:
  "distance \<noteq> [] \<Longrightarrow> \<exists>v u. parse_distance distance = Inr (v, u)"
  by (simp add: parse_distance_def)

lemma convert_row_steps:
  assumes "parse_distance distance = Inr (dist_value, dist_unit)"
    and "parse_reading reading = Inr (temp_value, temp_unit)"
  shows "convert_row cv tt td [date, distance, reading] =
           bind (convert_distance cv td dist_value dist_unit distance) (\<lambda>new_distance.
           bind (convert_temperature cv tt temp_value temp_unit reading) (\<lambda>new_reading.
           Inr [date, new_distance, new_reading]))"
  using assms by (simp add: convert_row_def bind_def)

lemma example_row_parses:
  "parse_distance (py_str ''41m'') = Inr (py_str ''41'', py_str ''m'')"
  "parse_reading (py_str ''10'' @ degree_sign # py_str ''C'')
     = Inr (py_str ''10'', degree_sign # py_str ''C'')"
  by (simp_all add: parse_distance_def parse_reading_def string_defs)

lemma example_row_unchanged:
  "convert_row cv (py_str ''C'') (py_str ''m'') example_row = Inr example_row"
  by (simp add: row_defs string_defs)

section \<open>The loop stops at the first exception\<close>

lemma write_rows_fail:
  "map (convert_row cv tt td) pre = map Inr outs \<Longrightarrow> convert_row cv tt td bad = Inl e \<Longrightarrow>
   write_rows cv tt td written (pre @ bad # post) = (written @ outs, Some e)"
proof (induction pre arbitrary: written outs)
  case Nil
  then show ?case by simp
next
  case (Cons r pre)
  then obtain out outs' where "outs = out # outs'" "convert_row cv tt td r = Inr out"
    "map (convert_row cv tt td) pre = map Inr outs'"
    by (cases outs) auto
  with Cons show ?case by simp
qed

lemma write_rows_ok:
  "map (convert_row cv tt td) rows = map Inr outs \<Longrightarrow>
   write_rows cv tt td written rows = (written @ outs, None)"
proof (induction rows arbitrary: written outs)
  case Nil
  then show ?case by simp
next
  case (Cons r rows)
  then obtain out outs' where "outs = out # outs'" "convert_row cv tt td r = Inr out"
    "map (convert_row cv tt td) rows = map Inr outs'"
    by (cases outs) auto
  with Cons show ?case by simp
qed

lemma convert_data_fail:
  assumes "map (convert_row cv tt td) pre = map Inr outs"
    and "convert_row cv tt td bad = Inl e"
  shows "convert_data cv (header # pre @ bad # post) tt td = (header # outs, Some e)"
  using write_rows_fail [OF assms] by (simp add: convert_data_def)

section \<open>Evaluating \<^verbatim>\<open>float\<close> on strings that are no numbers\<close>

lemmas float_parse_defs =
  py_float_def parse_float_def float_strip_def float_isspace_def parse_number_def
  parse_exponent_def decimal_of_def decimal_zeros_def digits_value_def

lemma py_float_abc: "py_float (py_str ''abc'') = Inl (ValueError_float (py_str ''abc''))"
  by (simp add: float_parse_defs string_defs)

lemma parse_float_abc: "parse_float (float_strip (py_str ''abc'')) = None"
  by (simp add: float_parse_defs string_defs)

section \<open>Fields that are not converted\<close>




section \<open>Units that are not recognized\<close>

text \<open>
  C3, as the code has it. There is no error for an unsupported unit. A distance whose
  parsed unit is neither \<^verbatim>\<open>m\<close> nor \<^verbatim>\<open>ft\<close> is returned as it was read, whatever the
  target; so is a reading whose unit part holds neither \<^verbatim>\<open>C\<close> nor \<^verbatim>\<open>F\<close>. A row with
  both is handed to the writer unchanged.
\<close>

theorem unsupported_unit_passthrough:
  assumes "parse_distance distance = Inr (dist_value, dist_unit)"
    and "parse_reading reading = Inr (temp_value, temp_unit)"
  shows "(dist_unit \<noteq> py_str ''m'' \<and> dist_unit \<noteq> py_str ''ft''
          \<longrightarrow> convert_distance cv td dist_value dist_unit distance = Inr distance)
       \<and> (70 \<notin> set temp_unit \<and> 67 \<notin> set temp_unit
          \<longrightarrow> convert_temperature cv tt temp_value temp_unit reading = Inr reading)
       \<and> (dist_unit \<noteq> py_str ''m'' \<and> dist_unit \<noteq> py_str ''ft''
            \<and> 70 \<notin> set temp_unit \<and> 67 \<notin> set temp_unit
          \<longrightarrow> convert_row cv tt td [date, distance, reading] = Inr [date, distance, reading])"
proof -
  have d: "convert_distance cv td dist_value dist_unit distance = Inr distance"
    if "dist_unit \<noteq> py_str ''m''" "dist_unit \<noteq> py_str ''ft''"
    using that by (simp add: convert_distance_def)
  have t: "convert_temperature cv tt temp_value temp_unit reading = Inr reading"
    if "70 \<notin> set temp_unit" "67 \<notin> set temp_unit"
    using that by (simp add: convert_temperature_def)
  note r = convert_row_steps [OF assms, of cv tt td date]
  from d t r show ?thesis by (simp add: bind_def)
qed

theorem unsupported_unit_passthrough_witness:
  "parse_distance (py_str ''41yd'') = Inr (py_str ''41y'', py_str ''d'')
   \<and> parse_reading (py_str ''10'' @ degree_sign # py_str ''K'')
       = Inr (py_str ''10'', degree_sign # py_str ''K'')
   \<and> py_str ''d'' \<noteq> py_str ''m'' \<and> py_str ''d'' \<noteq> py_str ''ft''
   \<and> 70 \<notin> set (degree_sign # py_str ''K'') \<and> 67 \<notin> set (degree_sign # py_str ''K'')
   \<and> convert_row spec_convertor (py_str ''F'') (py_str ''f'')
       [py_str ''2024-01-01'', py_str ''41yd'', py_str ''10'' @ degree_sign # py_str ''K'']
       = Inr [py_str ''2024-01-01'', py_str ''41yd'',
              py_str ''10'' @ degree_sign # py_str ''K'']"
proof -
  have d: "parse_distance (py_str ''41yd'') = Inr (py_str ''41y'', py_str ''d'')"
    by (simp add: parse_distance_def string_defs)
  have r: "parse_reading (py_str ''10'' @ degree_sign # py_str ''K'')
       = Inr (py_str ''10'', degree_sign # py_str ''K'')"
    by (simp add: parse_reading_def string_defs)
  have u: "py_str ''d'' \<noteq> py_str ''m'' \<and> py_str ''d'' \<noteq> py_str ''ft''
      \<and> 70 \<notin> set (degree_sign # py_str ''K'') \<and> 67 \<notin> set (degree_sign # py_str ''K'')"
    by (simp add: string_defs)
  from unsupported_unit_passthrough [OF d r, where td = "py_str ''f''" and cv = spec_convertor
      and tt = "py_str ''F''" and date = "py_str ''2024-01-01''"] d r u
  show ?thesis by simp
qed

text \<open>
  The claim as the spec states it fails: with the targets \<^verbatim>\<open>F\<close> and \<^verbatim>\<open>f\<close>, the row
  \<^verbatim>\<open>2024-01-01,41yd,10\<degree>K\<close> is written as it is and the run ends without an exception.
\<close>

theorem unsupported_unit_counterexample:
  "convert_data spec_convertor
     [example_header,
      [py_str ''2024-01-01'', py_str ''41yd'', py_str ''10'' @ degree_sign # py_str ''K'']]
     (py_str ''F'') (py_str ''f'')
   = ([example_header,
       [py_str ''2024-01-01'', py_str ''41yd'', py_str ''10'' @ degree_sign # py_str ''K'']],
      None)"
  by (simp add: convert_data_def row_defs string_defs)

section \<open>Values that are no numbers\<close>

text \<open>
  C4, as the code has it. \<^verbatim>\<open>float\<close> is applied to a value only in a branch that converts
  it. A row whose distance has to be converted and whose distance value is no number
  raises the \<^verbatim>\<open>ValueError\<close> of \<^verbatim>\<open>float\<close>; so does a row whose reading has to be converted
  and whose temperature value is no number, once the distance step has returned.
\<close>

theorem malformed_value_when_converted:
  assumes "parse_distance distance = Inr (dist_value, dist_unit)"
    and "parse_reading reading = Inr (temp_value, temp_unit)"
  shows "(((td = py_str ''m'' \<and> dist_unit = py_str ''ft'')
             \<or> (td = py_str ''f'' \<and> dist_unit = py_str ''m''))
            \<and> parse_float (float_strip dist_value) = None
          \<longrightarrow> convert_row cv tt td [date, distance, reading]
                = Inl (ValueError_float dist_value))
       \<and> (((tt = py_str ''C'' \<and> 70 \<in> set temp_unit)
             \<or> (tt = py_str ''F'' \<and> 67 \<in> set temp_unit))
            \<and> parse_float (float_strip temp_value) = None
            \<and> convert_distance cv td dist_value dist_unit distance = Inr new_distance
          \<longrightarrow> convert_row cv tt td [date, distance, reading]
                = Inl (ValueError_float temp_value))"
proof -
  note r = convert_row_steps [OF assms, of cv tt td date]
  have d: "convert_distance cv td dist_value dist_unit distance
             = Inl (ValueError_float dist_value)"
    if "(td = py_str ''m'' \<and> dist_unit = py_str ''ft'')
          \<or> (td = py_str ''f'' \<and> dist_unit = py_str ''m'')"
      and "parse_float (float_strip dist_value) = None"
    using that by (auto simp: convert_distance_def py_float_def bind_def py_str_def)
  have t: "convert_temperature cv tt temp_value temp_unit reading
             = Inl (ValueError_float temp_value)"
    if "(tt = py_str ''C'' \<and> 70 \<in> set temp_unit)
          \<or> (tt = py_str ''F'' \<and> 67 \<in> set temp_unit)"
      and "parse_float (float_strip temp_value) = None"
    using that by (auto simp: convert_temperature_def py_float_def bind_def py_str_def)
  from d t r show ?thesis by (auto simp: bind_def)
qed

theorem malformed_value_when_converted_witness:
  "parse_distance (py_str ''abcft'') = Inr (py_str ''abc'', py_str ''ft'')
   \<and> parse_distance (py_str ''41m'') = Inr (py_str ''41'', py_str ''m'')
   \<and> parse_reading (py_str ''abc'' @ degree_sign # py_str ''F'')
       = Inr (py_str ''abc'', degree_sign # py_str ''F'')
   \<and> parse_float (float_strip (py_str ''abc'')) = None
   \<and> 70 \<in> set (degree_sign # py_str ''F'')
   \<and> convert_distance spec_convertor (py_str ''m'') (py_str ''41'') (py_str ''m'')
       (py_str ''41m'') = Inr (py_str ''41m'')
   \<and> convert_row spec_convertor (py_str ''C'') (py_str ''m'')
       [py_str ''2024-01-01'', py_str ''abcft'',
        py_str ''abc'' @ degree_sign # py_str ''F'']
       = Inl (ValueError_float (py_str ''abc''))
   \<and> convert_row spec_convertor (py_str ''C'') (py_str ''m'')
       [py_str ''2024-01-01'', py_str ''41m'', py_str ''abc'' @ degree_sign # py_str ''F'']
       = Inl (ValueError_float (py_str ''abc''))"
proof -
  have d1: "parse_distance (py_str ''abcft'') = Inr (py_str ''abc'', py_str ''ft'')"
    by (simp add: parse_distance_def string_defs)
  have d2: "parse_distance (py_str ''41m'') = Inr (py_str ''41'', py_str ''m'')"
    by (simp add: parse_distance_def string_defs)
  have r: "parse_reading (py_str ''abc'' @ degree_sign # py_str ''F'')
       = Inr (py_str ''abc'', degree_sign # py_str ''F'')"
    by (simp add: parse_reading_def string_defs)
  have f: "70 \<in> set (degree_sign # py_str ''F'')"
    by (simp add: string_defs)
  have c: "convert_distance spec_convertor (py_str ''m'') (py_str ''41'') (py_str ''m'')
       (py_str ''41m'') = Inr (py_str ''41m'')"
    by (simp add: convert_distance_def string_defs)
  have x1: "convert_row spec_convertor (py_str ''C'') (py_str ''m'')
       [py_str ''2024-01-01'', py_str ''abcft'',
        py_str ''abc'' @ degree_sign # py_str ''F'']
       = Inl (ValueError_float (py_str ''abc''))"
    using malformed_value_when_converted [OF d1 r, where td = "py_str ''m''"
      and tt = "py_str ''C''" and cv = spec_convertor and date = "py_str ''2024-01-01''",
      THEN conjunct1]
      parse_float_abc
    by blast
  have x2: "convert_row spec_convertor (py_str ''C'') (py_str ''m'')
       [py_str ''2024-01-01'', py_str ''41m'', py_str ''abc'' @ degree_sign # py_str ''F'']
       = Inl (ValueError_float (py_str ''abc''))"
    using malformed_value_when_converted [OF d2 r, where td = "py_str ''m''"
      and tt = "py_str ''C''" and cv = spec_convertor and date = "py_str ''2024-01-01''"
      and new_distance = "py_str ''41m''", THEN conjunct2]
      parse_float_abc f c
    by blast
  from d1 d2 r f c parse_float_abc x1 x2 show ?thesis by simp
qed

text \<open>
  The claim as the spec states it fails: with the targets \<^verbatim>\<open>C\<close> and \<^verbatim>\<open>m\<close> nothing is
  converted in the row \<^verbatim>\<open>2024-01-01,abcm,abc\<degree>C\<close>, whose two values are no numbers, and
  the row is written as it is.
\<close>

theorem malformed_value_counterexample:
  "py_float (py_str ''abc'') = Inl (ValueError_float (py_str ''abc''))
   \<and> convert_data spec_convertor
       [example_header,
        [py_str ''2024-01-01'', py_str ''abcm'', py_str ''abc'' @ degree_sign # py_str ''C'']]
       (py_str ''C'') (py_str ''m'')
     = ([example_header,
         [py_str ''2024-01-01'', py_str ''abcm'',
          py_str ''abc'' @ degree_sign # py_str ''C'']],
        None)"
  by (simp add: py_float_abc) (simp add: convert_data_def row_defs string_defs)

section \<open>A reading without a degree sign\<close>

text \<open>
  C5, as the code has it. The value and the unit of the distance are read first, so a row
  whose distance is not empty and whose reading has no degree sign ends the run with the
  \<^verbatim>\<open>ValueError\<close> of unpacking the split reading into two names, whatever the targets;
  the output holds the header and the rows converted before it.
\<close>

theorem missing_degree_sign_fails:
  assumes "degree_sign \<notin> set reading"
    and "distance \<noteq> []"
    and "map (convert_row cv tt td) pre = map Inr outs"
  shows "convert_data cv (header # pre @ [date, distance, reading] # post) tt td
           = (header # outs, Some (ValueError_unpack 2))"
proof -
  from assms(2) obtain v u where "parse_distance distance = Inr (v, u)"
    using parse_distance_nonempty by blast
  with assms(1) have "convert_row cv tt td [date, distance, reading] = Inl (ValueError_unpack 2)"
    by (simp add: convert_row_def bind_def parse_reading_no_degree)
  with assms(3) show ?thesis by (rule convert_data_fail)
qed

theorem missing_degree_sign_fails_witness:
  "degree_sign \<notin> set (py_str ''10C'') \<and> py_str ''41m'' \<noteq> []
   \<and> map (convert_row spec_convertor (py_str ''C'') (py_str ''m'')) [example_row, example_row]
       = map Inr [example_row, example_row]
   \<and> convert_data spec_convertor
       [example_header, example_row, example_row,
        [py_str ''2024-01-03'', py_str ''41m'', py_str ''10C''], example_row]
       (py_str ''C'') (py_str ''m'')
     = ([example_header, example_row, example_row], Some (ValueError_unpack 2))"
proof -
  have a: "degree_sign \<notin> set (py_str ''10C'')" and b: "py_str ''41m'' \<noteq> []"
    by (simp_all add: string_defs)
  have c: "map (convert_row spec_convertor (py_str ''C'') (py_str ''m''))
      [example_row, example_row] = map Inr [example_row, example_row]"
    by (simp add: example_row_unchanged)
  from missing_degree_sign_fails [OF a b c, where header = example_header
      and date = "py_str ''2024-01-03''" and post = "[example_row]"] a b c
  show ?thesis by simp
qed

text \<open>
  The claim as the spec states it fails where the distance field is empty too: the run
  ends with the \<^verbatim>\<open>IndexError\<close> of \<^verbatim>\<open>distance[-1]\<close>, raised before the reading is split.
\<close>

theorem missing_degree_sign_counterexample:
  "degree_sign \<notin> set (py_str ''10C'')
   \<and> convert_data spec_convertor
       [example_header, [py_str ''2024-01-01'', [], py_str ''10C'']]
       (py_str ''C'') (py_str ''m'')
     = ([example_header], Some IndexError)"
  by (simp add: convert_data_def row_defs string_defs)

section \<open>A distance shorter than its suffix\<close>

text \<open>
  C6, as the code has it. The distance is rejected when it is read only if it is empty:
  \<^verbatim>\<open>distance[-1]\<close> raises \<^verbatim>\<open>IndexError\<close>, the run ends there and the output holds the
  header and the rows converted before. A distance that is not empty is never rejected
  when it is read, however short.
\<close>

theorem empty_distance_fails:
  assumes "map (convert_row cv tt td) pre = map Inr outs"
  shows "convert_data cv (header # pre @ [date, [], reading] # post) tt td
           = (header # outs, Some IndexError)
       \<and> (parse_distance distance = Inl IndexError) = (distance = [])"
proof -
  have "convert_row cv tt td [date, [], reading] = Inl IndexError"
    by (simp add: convert_row_def bind_def parse_distance_empty)
  with assms have "convert_data cv (header # pre @ [date, [], reading] # post) tt td
           = (header # outs, Some IndexError)"
    by (rule convert_data_fail)
  moreover have "(parse_distance distance = Inl IndexError) = (distance = [])"
  proof (cases "distance = []")
    case True
    then show ?thesis by (simp add: parse_distance_empty)
  next
    case False
    then obtain v u where "parse_distance distance = Inr (v, u)"
      using parse_distance_nonempty by blast
    with False show ?thesis by simp
  qed
  ultimately show ?thesis by simp
qed

theorem empty_distance_fails_witness:
  "map (convert_row spec_convertor (py_str ''F'') (py_str ''f'')) [] = map Inr []
   \<and> convert_data spec_convertor
       [example_header, [py_str ''2024-01-01'', [], py_str ''10'' @ degree_sign # py_str ''C''],
        example_row]
       (py_str ''F'') (py_str ''f'')
     = ([example_header], Some IndexError)
   \<and> (parse_distance (py_str ''m'') = Inl IndexError) = (py_str ''m'' = [])"
proof -
  have a: "map (convert_row spec_convertor (py_str ''F'') (py_str ''f'')) [] = map Inr []"
    by simp
  from empty_distance_fails [OF a, where header = example_header
      and date = "py_str ''2024-01-01''" and post = "[example_row]"
      and reading = "py_str ''10'' @ degree_sign # py_str ''C''"
      and distance = "py_str ''m''"] a
  show ?thesis by simp
qed

text \<open>
  The claim as the spec states it fails for a field with nothing before its suffix: with
  the target \<^verbatim>\<open>m\<close> the distance \<^verbatim>\<open>m\<close> is read as the value \<^verbatim>\<open>""\<close> with the unit \<^verbatim>\<open>m\<close>
  and written as it is.
\<close>

theorem short_distance_counterexample:
  "parse_distance (py_str ''m'') = Inr ([], py_str ''m'')
   \<and> convert_data spec_convertor
       [example_header,
        [py_str ''2024-01-01'', py_str ''m'', py_str ''10'' @ degree_sign # py_str ''C'']]
       (py_str ''C'') (py_str ''m'')
     = ([example_header,
         [py_str ''2024-01-01'', py_str ''m'', py_str ''10'' @ degree_sign # py_str ''C'']],
        None)"
  by (simp add: convert_data_def row_defs string_defs)

section \<open>Targets that name no unit\<close>

text \<open>
  C10, as the code has it. With a distance target other than \<^verbatim>\<open>m\<close> and \<^verbatim>\<open>f\<close> no branch
  converts the distance: a distance that has been read (one that is not empty) is
  returned as it was, and the row depends on the reading alone. With a temperature
  target other than \<^verbatim>\<open>C\<close> and \<^verbatim>\<open>F\<close> a reading that has been split is returned as it
  was. With both, the row is handed to the writer unchanged.
\<close>

theorem invalid_target_passthrough:
  assumes "parse_distance distance = Inr (dist_value, dist_unit)"
    and "parse_reading reading = Inr (temp_value, temp_unit)"
  shows "(td \<noteq> py_str ''m'' \<and> td \<noteq> py_str ''f''
          \<longrightarrow> convert_distance cv td dist_value dist_unit distance = Inr distance
              \<and> convert_row cv tt td [date, distance, reading] =
                  bind (convert_temperature cv tt temp_value temp_unit reading)
                    (\<lambda>new_reading. Inr [date, distance, new_reading]))
       \<and> (tt \<noteq> py_str ''C'' \<and> tt \<noteq> py_str ''F''
          \<longrightarrow> convert_temperature cv tt temp_value temp_unit reading = Inr reading
              \<and> convert_row cv tt td [date, distance, reading] =
                  bind (convert_distance cv td dist_value dist_unit distance)
                    (\<lambda>new_distance. Inr [date, new_distance, reading]))
       \<and> (td \<noteq> py_str ''m'' \<and> td \<noteq> py_str ''f'' \<and> tt \<noteq> py_str ''C'' \<and> tt \<noteq> py_str ''F''
          \<longrightarrow> convert_row cv tt td [date, distance, reading] = Inr [date, distance, reading])"
proof -
  have d: "convert_distance cv td dist_value dist_unit distance = Inr distance"
    if "td \<noteq> py_str ''m''" "td \<noteq> py_str ''f''"
    using that by (simp add: convert_distance_def)
  have t: "convert_temperature cv tt temp_value temp_unit reading = Inr reading"
    if "tt \<noteq> py_str ''C''" "tt \<noteq> py_str ''F''"
    using that by (simp add: convert_temperature_def)
  note r = convert_row_steps [OF assms, of cv tt td date]
  from d t r show ?thesis by (auto simp: bind_def split: sum.splits)
qed

theorem invalid_target_passthrough_witness:
  "parse_distance (py_str ''41m'') = Inr (py_str ''41'', py_str ''m'')
   \<and> parse_reading (py_str ''10'' @ degree_sign # py_str ''C'')
       = Inr (py_str ''10'', degree_sign # py_str ''C'')
   \<and> py_str ''ft'' \<noteq> py_str ''m'' \<and> py_str ''ft'' \<noteq> py_str ''f''
   \<and> py_str ''K'' \<noteq> py_str ''C'' \<and> py_str ''K'' \<noteq> py_str ''F''
   \<and> convert_row spec_convertor (py_str ''K'') (py_str ''ft'') example_row = Inr example_row"
proof -
  have u: "py_str ''ft'' \<noteq> py_str ''m'' \<and> py_str ''ft'' \<noteq> py_str ''f''
      \<and> py_str ''K'' \<noteq> py_str ''C'' \<and> py_str ''K'' \<noteq> py_str ''F''"
    by (simp add: string_defs)
  from invalid_target_passthrough [OF example_row_parses, where td = "py_str ''ft''"
      and tt = "py_str ''K''" and cv = spec_convertor and date = "py_str ''2024-01-01''",
      THEN conjunct2, THEN conjunct2] u
  have "convert_row spec_convertor (py_str ''K'') (py_str ''ft'') example_row = Inr example_row"
    by (simp add: example_row_def)
  with example_row_parses u show ?thesis by simp
qed

text \<open>
  The claim as it is stated fails for an empty distance field: with the target \<^verbatim>\<open>ft\<close>
  the row \<^verbatim>\<open>2024-01-01,,10\<degree>C\<close> still raises \<^verbatim>\<open>IndexError\<close>.
\<close>

theorem invalid_target_counterexample:
  "py_str ''ft'' \<noteq> py_str ''m'' \<and> py_str ''ft'' \<noteq> py_str ''f''
   \<and> convert_data spec_convertor
       [example_header, [py_str ''2024-01-01'', [], py_str ''10'' @ degree_sign # py_str ''C'']]
       (py_str ''C'') (py_str ''ft'')
     = ([example_header], Some IndexError)"
  by (simp add: convert_data_def row_defs string_defs)

section \<open>The rounding functions meet their specifications\<close>

lemma bitlen_nonpos: "a \<le> 0 \<Longrightarrow> bitlen a = 0"
  by (simp add: bitlen.simps)

lemma bitlen_pos: "0 < a \<Longrightarrow> bitlen a = 1 + bitlen (a div 2)"
  by (subst bitlen.simps) simp

lemma bitlen_nonneg: "0 \<le> bitlen a"
proof (induction a rule: bitlen.induct)
  case (1 a)
  then show ?case by (cases "a \<le> 0") (simp_all add: bitlen_nonpos bitlen_pos)
qed

lemma bitlen_bounds:
  "0 < a \<Longrightarrow> 2 ^ nat (bitlen a - 1) \<le> a \<and> a < 2 ^ nat (bitlen a)"
proof (induction a rule: bitlen.induct)
  case (1 a)
  show ?case
  proof (cases "a = 1")
    case True
    then show ?thesis by (simp add: bitlen_pos bitlen_nonpos)
  next
    case False
    with "1.prems" have pos: "0 < a div 2" by simp
    define k where "k = bitlen (a div 2)"
    from "1.IH" "1.prems" pos
    have ih: "2 ^ nat (k - 1) \<le> a div 2" "a div 2 < 2 ^ nat k"
      by (simp_all add: k_def)
    have k1: "1 \<le> k"
      using bitlen_pos [OF pos] bitlen_nonneg [of "a div 2 div 2"] by (simp add: k_def)
    have b: "bitlen a = 1 + k"
      using "1.prems" by (simp add: bitlen_pos k_def)
    have p: "(2::int) ^ nat k = 2 * 2 ^ nat (k - 1)"
      using k1 by (metis One_nat_def Suc_nat_eq_nat_zadd1 add.commute diff_add_cancel
          diff_ge_0_iff_ge power_Suc)
    have q: "(2::int) ^ nat (1 + k) = 2 * 2 ^ nat k"
      using k1 by (simp add: nat_add_distrib)
    from ih p have lo: "2 ^ nat k \<le> a" by linarith
    from ih q have hi: "a < 2 ^ nat (1 + k)" by linarith
    from lo hi b show ?thesis by simp
  qed
qed


lemma bitlen_ge1: "0 < a \<Longrightarrow> 1 \<le> bitlen a"
  using bitlen_pos [of a] bitlen_nonneg [of "a div 2"] by simp

lemma two_powi_nat: "0 \<le> k \<Longrightarrow> (2::rat) powi k = of_int (2 ^ nat k)"
  by (simp add: power_int_def)

lemma ilog2_lower: assumes "0 < q" shows "2 powi ilog2 q \<le> q"
proof (cases "1 \<le> q")
  case True
  define a where "a = \<lfloor>q\<rfloor>"
  have a: "0 < a" using True by (simp add: a_def)
  have "(2::rat) powi (bitlen a - 1) = of_int (2 ^ nat (bitlen a - 1))"
    using bitlen_ge1 [OF a] by (intro two_powi_nat) simp
  also have "\<dots> \<le> of_int a"
    using bitlen_bounds [OF a] by (simp only: of_int_le_iff)
  also have "\<dots> \<le> q" by (simp add: a_def)
  finally show ?thesis using True by (simp add: ilog2_def a_def)
next
  case False
  define b where "b = \<lceil>1 / q\<rceil> - 1"
  from False assms have "1 < 1 / q" by simp
  then have b: "0 < b" by (simp add: b_def)
  have "1 / q \<le> of_int (b + 1)" by (simp add: b_def)
  also have "of_int (b + 1) \<le> (of_int (2 ^ nat (bitlen b)) :: rat)"
    using bitlen_bounds [OF b] by (simp only: of_int_le_iff) simp
  also have "\<dots> = 2 powi (bitlen b)"
    using bitlen_nonneg [of b] by (simp add: two_powi_nat)
  finally have "1 / q \<le> 2 powi (bitlen b)" .
  with assms have "1 / 2 powi (bitlen b) \<le> q"
    by (simp add: field_simps)
  then show ?thesis using False by (simp add: ilog2_def b_def power_int_minus_divide)
qed

lemma ilog2_upper: assumes "0 < q" shows "q < 2 powi (ilog2 q + 1)"
proof (cases "1 \<le> q")
  case True
  define a where "a = \<lfloor>q\<rfloor>"
  have a: "0 < a" using True by (simp add: a_def)
  have "q < of_int (a + 1)" using floor_correct [of q] by (simp add: a_def)
  also have "of_int (a + 1) \<le> (of_int (2 ^ nat (bitlen a)) :: rat)"
    using bitlen_bounds [OF a] by (simp only: of_int_le_iff) simp
  also have "\<dots> = 2 powi (bitlen a)"
    using bitlen_nonneg [of a] by (simp add: two_powi_nat)
  finally show ?thesis using True by (simp add: ilog2_def a_def)
next
  case False
  define b where "b = \<lceil>1 / q\<rceil> - 1"
  from False assms have "1 < 1 / q" by simp
  then have b: "0 < b" by (simp add: b_def)
  have "(2::rat) powi (bitlen b - 1) = of_int (2 ^ nat (bitlen b - 1))"
    using bitlen_ge1 [OF b] by (intro two_powi_nat) simp
  also have "\<dots> \<le> of_int b"
    using bitlen_bounds [OF b] by (simp only: of_int_le_iff)
  also have "of_int b < 1 / q"
    using ceiling_correct [of "1 / q"] by (simp add: b_def)
  finally have "2 powi (bitlen b - 1) < 1 / q" .
  with assms have "q < 1 / 2 powi (bitlen b - 1)"
    by (simp add: field_simps)
  also have "\<dots> = 2 powi (- bitlen b + 1)"
    by (simp add: power_int_minus_divide [symmetric])
  finally show ?thesis using False by (simp add: ilog2_def b_def)
qed

lemma ilog2_eqI:
  assumes "2 powi e \<le> q" and "q < 2 powi (e + 1)"
  shows "ilog2 q = e"
proof -
  have pos: "0 < q"
    using assms(1) by (rule less_le_trans [rotated]) simp
  have "ilog2 q < e + 1"
  proof (rule ccontr)
    assume "\<not> ilog2 q < e + 1"
    then have "(2::rat) powi (e + 1) \<le> 2 powi ilog2 q"
      by (intro power_int_increasing) simp_all
    with ilog2_lower [OF pos] assms(2) show False by simp
  qed
  moreover have "e < ilog2 q + 1"
  proof (rule ccontr)
    assume "\<not> e < ilog2 q + 1"
    then have "(2::rat) powi (ilog2 q + 1) \<le> 2 powi e"
      by (intro power_int_increasing) simp_all
    with ilog2_upper [OF pos] assms(1) show False by simp
  qed
  ultimately show ?thesis by simp
qed

lemma round_half_even_of_int: "round_half_even (of_int n) = n"
  by (simp add: round_half_even_def)

lemma round_half_even_eqI:
  assumes "\<bar>x - of_int n\<bar> < 1 / 2"
  shows "round_half_even x = n"
proof -
  from assms have lo: "of_int n - 1 / 2 < x"
    by linarith
  from assms have hi: "x < of_int n + 1 / 2"
    by linarith
  have "of_int (n - 1) \<le> x" using lo by simp
  then have f1: "n - 1 \<le> \<lfloor>x\<rfloor>" by (simp only: le_floor_iff)
  have "x < of_int (n + 1)" using hi by simp
  then have f2: "\<lfloor>x\<rfloor> < n + 1" by (simp only: floor_less_iff)
  from f1 f2 consider "\<lfloor>x\<rfloor> = n" | "\<lfloor>x\<rfloor> = n - 1"
    by linarith
  then show ?thesis
  proof cases
    case 1
    have "x - of_int n < 1 / 2" using hi by simp
    with 1 show ?thesis unfolding round_half_even_def Let_def by simp
  next
    case 2
    have "\<not> x - of_int (n - 1) < 1 / 2" "1 / 2 < x - of_int (n - 1)" using lo by simp_all
    with 2 show ?thesis unfolding round_half_even_def Let_def by simp
  qed
qed

section \<open>Evaluating the float operations\<close>

lemma round_double_eval:
  assumes "2 powi e \<le> q" and "q < 2 powi (e + 1)" and "- 1022 \<le> e"
    and "\<bar>q * 2 powi (52 - e) - of_int n\<bar> < 1 / 2"
    and "r = of_int n * 2 powi (e - 52)" and "r < 2 ^ 1024"
  shows "round_double s q = Finite s r"
proof -
  have pos: "0 < q"
    using assms(1) by (rule less_le_trans [rotated]) simp
  have e: "ilog2 q = e"
    using assms(1,2) by (rule ilog2_eqI)
  have u: "q / 2 powi (e - 52) = q * 2 powi (52 - e)"
    using power_int_minus_divide [of "2::rat" "e - 52"] by simp
  have n: "round_half_even (q * 2 powi (52 - e)) = n"
    using assms(4) by (rule round_half_even_eqI)
  from pos e u n assms(3,5,6) show ?thesis
    by (simp add: round_double_def Let_def max_def)
qed

lemma round_double_int:
  assumes "0 \<le> m" and "m < 2 ^ 53"
  shows "round_double s (of_int m) = Finite s (of_int m)"
proof (cases "m = 0")
  case True
  then show ?thesis by (simp add: round_double_def)
next
  case False
  with assms have pos: "(0::rat) < of_int m" by simp
  define e where "e = ilog2 (of_int m)"
  have lo: "2 powi e \<le> (of_int m :: rat)" and hi: "(of_int m :: rat) < 2 powi (e + 1)"
    using ilog2_lower [OF pos] ilog2_upper [OF pos] by (simp_all add: e_def)
  have e0: "0 \<le> e"
  proof (rule ccontr)
    assume "\<not> 0 \<le> e"
    then have "(2::rat) powi (e + 1) \<le> 2 powi 0"
      by (intro power_int_increasing) simp_all
    moreover have "(1::rat) \<le> of_int m" using False assms(1) by simp
    ultimately show False using hi by simp
  qed
  have e52: "e \<le> 52"
  proof (rule ccontr)
    assume "\<not> e \<le> 52"
    then have "(2::rat) powi 53 \<le> 2 powi e"
      by (intro power_int_increasing) simp_all
    moreover have "(of_int m :: rat) < of_int (2 ^ 53)"
      using assms(2) by (simp only: of_int_less_iff)
    then have "(of_int m :: rat) < 2 powi 53" by simp
    ultimately show False using lo by simp
  qed
  have p: "(2::rat) powi (52 - e) = 2 ^ nat (52 - e)"
    using e52 by (simp add: power_int_def)
  have i: "2 powi (52 - e) * 2 powi (e - 52) = (1::rat)"
    by (simp add: power_int_add [symmetric])
  show ?thesis
  proof (rule round_double_eval [where e = e and n = "m * 2 ^ nat (52 - e)"])
    show "2 powi e \<le> (of_int m :: rat)" by (rule lo)
    show "(of_int m :: rat) < 2 powi (e + 1)" by (rule hi)
    show "- 1022 \<le> e" using e0 by simp
    show "\<bar>of_int m * 2 powi (52 - e) - (of_int (m * 2 ^ nat (52 - e)) :: rat)\<bar> < 1 / 2"
      by (simp add: p)
    have "(of_int (m * 2 ^ nat (52 - e)) :: rat) * 2 powi (e - 52)
        = of_int m * (2 powi (52 - e) * 2 powi (e - 52))"
      by (simp add: p)
    also have "\<dots> = of_int m"
      by (simp only: i mult_1_right)
    finally show "(of_int m :: rat) = of_int (m * 2 ^ nat (52 - e)) * 2 powi (e - 52)"
      by simp
    show "(of_int m :: rat) < 2 ^ 1024"
    proof -
      have "m < 2 ^ 1024" using assms(2) by (rule less_trans) simp
      then have "(of_int m :: rat) < of_int (2 ^ 1024)" by (simp only: of_int_less_iff)
      then show ?thesis by simp
    qed
  qed
qed

lemma round_double_numeral:
  "(numeral k :: int) < 2 ^ 53 \<Longrightarrow> round_double s (numeral k) = Finite s (numeral k)"
  using round_double_int [of "numeral k" s] by simp

lemma float_literal_feet:
  "float_literal (328084 / 100000) = Finite False (7387794900731109 / 2251799813685248)"
  unfolding float_literal_def
  by (rule round_double_eval [where e = 1 and n = 7387794900731109]) simp_all

lemma digits_small: "n < 10 \<Longrightarrow> digits n = [nat (48 + n)]"
  by (subst digits.simps) simp

lemma digits_large: "10 \<le> n \<Longrightarrow> digits n = digits (n div 10) @ [nat (48 + n mod 10)]"
  by (subst digits.simps) simp

lemma py_float_41: "py_float (py_str ''41'') = Inr (Finite False 41)"
  by (simp add: float_parse_defs string_defs round_double_numeral)

lemma py_float_10: "py_float (py_str ''10'') = Inr (Finite False 10)"
  by (simp add: float_parse_defs string_defs round_double_numeral)

lemma meters_to_feet_41:
  "meters_to_feet (Finite False 41) = Inr (Finite False (4732806108280867 / 35184372088832))"
  unfolding meters_to_feet_def float_literal_feet py_mul.simps
  by (simp, rule round_double_eval [where e = 7 and n = 4732806108280867]) simp_all

lemma format_41_feet:
  "format_2f (Finite False (4732806108280867 / 35184372088832)) = py_str ''134.51''"
proof -
  have "round_half_even (4732806108280867 / 35184372088832 * 100) = 13451"
    by (rule round_half_even_eqI) simp
  then show ?thesis
    by (simp add: format_2f_def string_defs digits_small digits_large)
qed

lemma celsius_to_fahrenheit_10:
  "celsius_to_fahrenheit (Finite False 10) = Inr (Finite False 50)"
  by (simp add: celsius_to_fahrenheit_def float_literal_def round_double_numeral bind_def
      signed_def)

lemma format_50: "format_2f (Finite False 50) = py_str ''50.00''"
proof -
  have "round_half_even (50 * 100) = 5000"
    using round_half_even_of_int [of 5000] by simp
  then show ?thesis
    by (simp add: format_2f_def string_defs digits_small digits_large)
qed

section \<open>Scenario B\<close>

lemma scenario_b_distance:
  "convert_distance spec_convertor (py_str ''f'') (py_str ''41'') (py_str ''m'') (py_str ''41m'')
     = Inr (py_str ''134.51ft'')"
proof -
  have c: "py_str ''f'' \<noteq> py_str ''m''"
    by (simp add: py_str_def)
  have a: "py_str ''134.51'' @ py_str ''ft'' = py_str ''134.51ft''"
    by (simp add: py_str_def)
  show ?thesis
    by (simp add: convert_distance_def c py_float_41 spec_convertor_def meters_to_feet_41
        format_41_feet bind_def a)
qed

lemma scenario_b_reading:
  "convert_temperature spec_convertor (py_str ''F'') (py_str ''10'')
     (degree_sign # py_str ''C'') (py_str ''10'' @ degree_sign # py_str ''C'')
     = Inr (py_str ''50.00'' @ degree_sign # py_str ''F'')"
proof -
  have c: "py_str ''F'' \<noteq> py_str ''C''" "67 \<in> set (py_str ''C'')"
    by (simp_all add: py_str_def)
  show ?thesis
    by (simp add: convert_temperature_def c py_float_10 spec_convertor_def
        celsius_to_fahrenheit_10 format_50 bind_def)
qed

text \<open>
  C1. With the targets \<^verbatim>\<open>F\<close> and \<^verbatim>\<open>f\<close>, the input of the header and the row
  \<^verbatim>\<open>2024-01-01,41m,10\<degree>C\<close> is written as the header and the row
  \<^verbatim>\<open>2024-01-01,134.51ft,50.00\<degree>F\<close>, and the run ends without an exception. The conversion
  functions are the ones the spec gives; the floats are binary64.
\<close>

theorem scenario_b:
  "convert_data spec_convertor [example_header, example_row] (py_str ''F'') (py_str ''f'')
     = ([example_header,
         [py_str ''2024-01-01'', py_str ''134.51ft'',
          py_str ''50.00'' @ degree_sign # py_str ''F'']],
        None)"
proof -
  have "convert_row spec_convertor (py_str ''F'') (py_str ''f'') example_row
      = Inr [py_str ''2024-01-01'', py_str ''134.51ft'',
             py_str ''50.00'' @ degree_sign # py_str ''F'']"
    unfolding example_row_def
    by (simp add: convert_row_steps [OF example_row_parses] scenario_b_distance
        scenario_b_reading bind_def)
  then show ?thesis
    by (simp add: convert_data_def)
qed

section \<open>The format of a converted field\<close>

lemma is_digit_nat: "0 \<le> k \<Longrightarrow> k < 10 \<Longrightarrow> is_digit (nat (48 + k))"
  unfolding is_digit_def by arith

lemma digits_are_digits: "0 \<le> n \<Longrightarrow> digits n \<noteq> [] \<and> list_all is_digit (digits n)"
proof (induction n rule: digits.induct)
  case (1 n)
  show ?case
  proof (cases "n < 10")
    case True
    with "1.prems" show ?thesis by (simp add: digits_small is_digit_nat)
  next
    case False
    then have "0 \<le> n div 10" by simp
    with "1.IH" False have "list_all is_digit (digits (n div 10))" by simp
    moreover have "is_digit (nat (48 + n mod 10))" by (simp add: is_digit_nat)
    ultimately show ?thesis using False by (simp add: digits_large)
  qed
qed

lemma round_half_even_nonneg: "0 \<le> x \<Longrightarrow> 0 \<le> round_half_even x"
  by (simp add: round_half_even_def Let_def)

lemma two_decimals_body:
  assumes "ds \<noteq> []" and "list_all is_digit ds" and "is_digit a" and "is_digit b"
  shows "two_decimals (ds @ [46, a, b])" and "two_decimals (45 # ds @ [46, a, b])"
proof -
  from assms(1) obtain d ds' where ds: "ds = d # ds'" by (cases ds) auto
  with assms(2) have "d \<noteq> 45" by (auto simp: is_digit_def)
  with ds have t: "take 1 (ds @ [46, a, b]) \<noteq> [45]" by simp
  have l: "length (ds @ [46, a, b]) - 3 = length ds" by simp
  have n: "(ds @ [46, a, b]) ! length ds = 46" "(ds @ [46, a, b]) ! (length ds + 1) = a"
    "(ds @ [46, a, b]) ! (length ds + 2) = b"
    by (simp_all add: nth_append)
  have m: "length (ds @ [46, a, b]) - 2 = length ds + 1"
    "length (ds @ [46, a, b]) - 1 = length ds + 2"
    by simp_all
  have body: "4 \<le> length (ds @ [46, a, b])" using ds by simp
  from assms body show "two_decimals (ds @ [46, a, b])"
    unfolding two_decimals_def Let_def using t by (simp only: if_False l n m take_all_iff)
      (simp add: nth_append)
  from assms body show "two_decimals (45 # ds @ [46, a, b])"
    unfolding two_decimals_def Let_def by (simp add: nth_append)
qed

lemma two_decimals_format:
  assumes "0 \<le> q"
  shows "two_decimals (format_2f (Finite s q))"
proof -
  define n where "n = round_half_even (q * 100)"
  have n0: "0 \<le> n" using assms by (simp add: n_def round_half_even_nonneg)
  then have d: "digits (n div 100) \<noteq> []" "list_all is_digit (digits (n div 100))"
    using digits_are_digits [of "n div 100"] by (simp_all add: pos_imp_zdiv_nonneg_iff)
  have a: "is_digit (nat (48 + n mod 100 div 10))"
  proof -
    have "0 \<le> n mod 100 div 10" "n mod 100 div 10 < 10" by simp_all
    then show ?thesis by (rule is_digit_nat)
  qed
  have b: "is_digit (nat (48 + n mod 10))" by (simp add: is_digit_nat)
  from two_decimals_body [OF d a b] show ?thesis
    by (simp add: format_2f_def Let_def n_def [symmetric] py_str_def)
qed

lemma py_float_inf: "py_float (py_str ''inf'') = Inr (Infinity False)"
  by (simp add: float_parse_defs string_defs)

lemma meters_to_feet_inf: "meters_to_feet (Infinity False) = Inr (Infinity False)"
  unfolding meters_to_feet_def float_literal_feet by simp

text \<open>
  C7, as the code has it. Whenever a field is converted (its branch is taken, \<^verbatim>\<open>float\<close>
  returns \<open>x\<close> and the conversion function returns \<open>y\<close>), the new field is \<open>y\<close> in the
  format \<^verbatim>\<open>.2f\<close> with the suffix of the target right after it: \<^verbatim>\<open>m\<close>, \<^verbatim>\<open>ft\<close>, \<^verbatim>\<open>\<degree>C\<close> or
  \<^verbatim>\<open>\<degree>F\<close>. When \<open>y\<close> is finite, that format is an optional minus sign, digits, a point
  and exactly two digits.
\<close>

theorem converted_field_format:
  assumes "py_float v = Inr x"
  shows "(td = py_str ''m'' \<and> dist_unit = py_str ''ft'' \<and> to_m cv x = Inr y
          \<longrightarrow> convert_distance cv td v dist_unit distance = Inr (format_2f y @ py_str ''m''))
       \<and> (td = py_str ''f'' \<and> dist_unit = py_str ''m'' \<and> to_ft cv x = Inr y
          \<longrightarrow> convert_distance cv td v dist_unit distance = Inr (format_2f y @ py_str ''ft''))
       \<and> (tt = py_str ''C'' \<and> 70 \<in> set temp_unit \<and> to_C cv x = Inr y
          \<longrightarrow> convert_temperature cv tt v temp_unit reading
                = Inr (format_2f y @ degree_sign # py_str ''C''))
       \<and> (tt = py_str ''F'' \<and> 67 \<in> set temp_unit \<and> to_F cv x = Inr y
          \<longrightarrow> convert_temperature cv tt v temp_unit reading
                = Inr (format_2f y @ degree_sign # py_str ''F''))
       \<and> (is_finite y \<longrightarrow> two_decimals (format_2f y))"
proof -
  have ne: "py_str ''f'' \<noteq> py_str ''m''" "py_str ''F'' \<noteq> py_str ''C''"
    by (simp_all add: py_str_def)
  have fin: "two_decimals (format_2f y)" if "is_finite y"
    using that by (cases y) (simp_all add: two_decimals_format)
  from assms ne fin show ?thesis
    by (auto simp: convert_distance_def convert_temperature_def bind_def)
qed

theorem converted_field_format_witness:
  "py_float (py_str ''41'') = Inr (Finite False 41)
   \<and> to_ft spec_convertor (Finite False 41)
       = Inr (Finite False (4732806108280867 / 35184372088832))
   \<and> is_finite (Finite False (4732806108280867 / 35184372088832))
   \<and> convert_distance spec_convertor (py_str ''f'') (py_str ''41'') (py_str ''m'')
       (py_str ''41m'') = Inr (py_str ''134.51'' @ py_str ''ft'')
   \<and> two_decimals (py_str ''134.51'')"
proof -
  have h: "to_ft spec_convertor (Finite False 41)
       = Inr (Finite False (4732806108280867 / 35184372088832))"
    by (simp add: spec_convertor_def meters_to_feet_41)
  have f: "is_finite (Finite False (4732806108280867 / 35184372088832))"
    by simp
  note t = converted_field_format [OF py_float_41, where td = "py_str ''f''"
      and dist_unit = "py_str ''m''" and cv = spec_convertor
      and y = "Finite False (4732806108280867 / 35184372088832)"
      and distance = "py_str ''41m''"]
  from t h have d: "convert_distance spec_convertor (py_str ''f'') (py_str ''41'')
      (py_str ''m'') (py_str ''41m'') = Inr (py_str ''134.51'' @ py_str ''ft'')"
    by (simp add: format_41_feet)
  from t f have "two_decimals (py_str ''134.51'')"
    by (simp add: format_41_feet)
  with py_float_41 h f d show ?thesis by simp
qed

text \<open>
  The claim as the spec states it fails for a result that is not finite: \<^verbatim>\<open>float\<close> reads
  \<^verbatim>\<open>inf\<close>, the product with 3.28084 is infinite, and the format \<^verbatim>\<open>.2f\<close> writes \<^verbatim>\<open>inf\<close>,
  with no decimal. With the target \<^verbatim>\<open>f\<close> the distance \<^verbatim>\<open>infm\<close> is written \<^verbatim>\<open>infft\<close>.
\<close>

theorem converted_field_counterexample:
  "convert_data spec_convertor
     [example_header,
      [py_str ''2024-01-01'', py_str ''infm'', py_str ''10'' @ degree_sign # py_str ''C'']]
     (py_str ''C'') (py_str ''f'')
   = ([example_header,
       [py_str ''2024-01-01'', py_str ''infft'', py_str ''10'' @ degree_sign # py_str ''C'']],
      None)
   \<and> \<not> two_decimals (py_str ''inf'')"
proof -
  have p: "parse_distance (py_str ''infm'') = Inr (py_str ''inf'', py_str ''m'')"
    by (simp add: parse_distance_def string_defs)
  have ne: "py_str ''f'' \<noteq> py_str ''m''"
    by (simp add: py_str_def)
  have a: "py_str ''inf'' @ py_str ''ft'' = py_str ''infft''"
    by (simp add: py_str_def)
  have d: "convert_distance spec_convertor (py_str ''f'') (py_str ''inf'') (py_str ''m'')
      (py_str ''infm'') = Inr (py_str ''infft'')"
    by (simp add: convert_distance_def ne py_float_inf spec_convertor_def meters_to_feet_inf
        format_2f_def bind_def a)
  have t: "convert_temperature spec_convertor (py_str ''C'') (py_str ''10'')
      (degree_sign # py_str ''C'') (py_str ''10'' @ degree_sign # py_str ''C'')
      = Inr (py_str ''10'' @ degree_sign # py_str ''C'')"
    by (simp add: convert_temperature_def string_defs)
  have "convert_row spec_convertor (py_str ''C'') (py_str ''f'')
      [py_str ''2024-01-01'', py_str ''infm'', py_str ''10'' @ degree_sign # py_str ''C'']
      = Inr [py_str ''2024-01-01'', py_str ''infft'',
             py_str ''10'' @ degree_sign # py_str ''C'']"
    by (simp add: convert_row_steps [OF p example_row_parses(2)] d t bind_def)
  moreover have "\<not> two_decimals (py_str ''inf'')"
    by (simp add: two_decimals_def py_str_def)
  ultimately show ?thesis by (simp add: convert_data_def)
qed

section \<open>The error of one rounding\<close>

lemma round_half_even_error: "\<bar>of_int (round_half_even x) - x\<bar> \<le> 1 / 2"
proof -
  have f: "of_int \<lfloor>x\<rfloor> \<le> x" "x < of_int \<lfloor>x\<rfloor> + 1"
    using floor_correct [of x] by simp_all
  show ?thesis
  proof (cases "x - of_int \<lfloor>x\<rfloor> < 1 / 2")
    case True
    with f show ?thesis by (simp add: round_half_even_def Let_def)
  next
    case False
    note nl = this
    show ?thesis
    proof (cases "1 / 2 < x - of_int \<lfloor>x\<rfloor>")
      case True
      with nl f show ?thesis by (simp add: round_half_even_def Let_def)
    next
      case False
      with nl have "x - of_int \<lfloor>x\<rfloor> = 1 / 2" by simp
      with nl False show ?thesis by (simp add: round_half_even_def Let_def)
    qed
  qed
qed

lemma round_double_error:
  assumes "0 \<le> q" and "q \<le> 2 ^ 100"
  shows "\<exists>r. round_double s q = Finite s r \<and> 0 \<le> r \<and> \<bar>r - q\<bar> \<le> q / 2 ^ 53 + 1 / 2 ^ 64"
proof (cases "q = 0")
  case True
  then show ?thesis by (simp add: round_double_def)
next
  case False
  with assms(1) have pos: "0 < q" by simp
  define e where "e = max (ilog2 q) (- 1022)"
  define u :: rat where "u = 2 powi (e - 52)"
  define n where "n = round_half_even (q / u)"
  define r where "r = of_int n * u"
  have u0: "0 < u" by (simp add: u_def)
  have ub: "u \<le> q / 2 ^ 52 + 1 / 2 ^ 63"
  proof (cases "- 1022 \<le> ilog2 q")
    case True
    then have "u = 2 powi (ilog2 q + (- 52))"
      by (simp add: u_def e_def max_def)
    also have "\<dots> = 2 powi ilog2 q * 2 powi (- 52)"
      by (rule power_int_add) simp
    also have "\<dots> \<le> q * 2 powi (- 52)"
      using ilog2_lower [OF pos] by (intro mult_right_mono) simp_all
    also have "\<dots> = q / 2 ^ 52" by (simp add: power_int_minus_divide)
    finally show ?thesis by simp
  next
    case False
    then have "u = 2 powi (- 1074)" by (simp add: u_def e_def max_def)
    also have "\<dots> \<le> 2 powi (- 63)" by (intro power_int_increasing) simp_all
    also have "\<dots> = 1 / 2 ^ 63" by (simp add: power_int_minus_divide)
    finally show ?thesis using assms(1) by (simp add: add_increasing)
  qed
  have "\<bar>of_int n - q / u\<bar> \<le> 1 / 2"
    unfolding n_def by (rule round_half_even_error)
  then have "\<bar>of_int n - q / u\<bar> * u \<le> 1 / 2 * u"
    using u0 by (intro mult_right_mono) simp_all
  moreover have "\<bar>of_int n - q / u\<bar> * u = \<bar>r - q\<bar>"
    using u0 by (simp add: r_def abs_mult [symmetric] left_diff_distrib abs_mult_pos)
  ultimately have err: "\<bar>r - q\<bar> \<le> u / 2" by simp
  have n0: "0 \<le> n"
    unfolding n_def using assms(1) u0 by (intro round_half_even_nonneg) simp
  then have r0: "0 \<le> r" using u0 by (simp add: r_def)
  have small: "r < 2 ^ 1024"
  proof -
    have "r \<le> q + u / 2" using err by linarith
    also have "\<dots> \<le> 2 * q + 1"
      using assms(1) ub by simp
    also have "\<dots> \<le> 2 * 2 ^ 100 + 1"
      using assms(2) by simp
    also have "\<dots> < 2 ^ 1024" by simp
    finally show ?thesis .
  qed
  have "round_double s q = Finite s r"
    using False small by (simp add: round_double_def Let_def e_def u_def n_def r_def)
  moreover have "\<bar>r - q\<bar> \<le> q / 2 ^ 53 + 1 / 2 ^ 64"
    using err ub by simp
  ultimately show ?thesis using r0 by blast
qed

section \<open>The error of one float operation\<close>

lemma is_finite_cases:
  assumes "is_finite x"
  obtains s q where "x = Finite s q" and "0 \<le> q"
  using assms by (cases x) auto

lemma abs_signed: "0 \<le> q \<Longrightarrow> \<bar>signed s q\<bar> = q"
  by (simp add: signed_def)

lemma signed_diff: "\<bar>signed s r - signed s q\<bar> = \<bar>r - q\<bar>"
  by (cases s) (simp_all add: signed_def abs_minus_commute)

lemma signed_zero: "signed s 0 = 0"
  by (simp add: signed_def)

lemma round_double_value:
  assumes "0 \<le> q" and "q \<le> 2 ^ 100"
  shows "is_finite (round_double s q)
       \<and> \<bar>float_value (round_double s q) - signed s q\<bar> \<le> q / 2 ^ 53 + 1 / 2 ^ 64"
proof -
  from round_double_error [OF assms, of s] obtain r
    where "round_double s q = Finite s r" "0 \<le> r" "\<bar>r - q\<bar> \<le> q / 2 ^ 53 + 1 / 2 ^ 64"
    by blast
  then show ?thesis by (simp add: signed_diff)
qed

lemma py_mul_error:
  assumes "is_finite x" and "is_finite y"
    and "\<bar>float_value x * float_value y\<bar> \<le> 2 ^ 100"
  shows "is_finite (py_mul x y)
       \<and> \<bar>float_value (py_mul x y) - float_value x * float_value y\<bar>
           \<le> \<bar>float_value x * float_value y\<bar> / 2 ^ 53 + 1 / 2 ^ 64"
proof -
  from assms(1) obtain s q where x: "x = Finite s q" "0 \<le> q" by (rule is_finite_cases)
  from assms(2) obtain t r where y: "y = Finite t r" "0 \<le> r" by (rule is_finite_cases)
  have v: "float_value x * float_value y = signed (s \<noteq> t) (q * r)"
    by (simp add: x y signed_def)
  have nn: "0 \<le> q * r" using x y by simp
  then have a: "\<bar>signed (s \<noteq> t) (q * r)\<bar> = q * r"
    by (rule abs_signed)
  have "q * r \<le> 2 ^ 100" using assms(3) unfolding v a .
  with nn show ?thesis
    unfolding v a using round_double_value [of "q * r" "s \<noteq> t"] by (simp add: x(1) y(1))
qed

lemma py_truediv_error:
  assumes "is_finite x" and "is_finite y" and "float_value y \<noteq> 0"
    and "\<bar>float_value x / float_value y\<bar> \<le> 2 ^ 100"
  shows "\<exists>z. py_truediv x y = Inr z \<and> is_finite z
       \<and> \<bar>float_value z - float_value x / float_value y\<bar>
           \<le> \<bar>float_value x / float_value y\<bar> / 2 ^ 53 + 1 / 2 ^ 64"
proof -
  from assms(1) obtain s q where x: "x = Finite s q" "0 \<le> q" by (rule is_finite_cases)
  from assms(2) obtain t r where y: "y = Finite t r" "0 \<le> r" by (rule is_finite_cases)
  from assms(3) have r: "r \<noteq> 0" by (auto simp: y(1) signed_def split: if_splits)
  have v: "float_value x / float_value y = signed (s \<noteq> t) (q / r)"
    by (simp add: x y signed_def)
  have nn: "0 \<le> q / r" using x y by simp
  then have a: "\<bar>signed (s \<noteq> t) (q / r)\<bar> = q / r"
    by (rule abs_signed)
  have "q / r \<le> 2 ^ 100" using assms(4) unfolding v a .
  with nn show ?thesis
    unfolding v a using round_double_value [of "q / r" "s \<noteq> t"] r by (simp add: x(1) y(1))
qed

lemma py_add_error:
  assumes "is_finite x" and "is_finite y"
    and "\<bar>float_value x + float_value y\<bar> \<le> 2 ^ 100"
  shows "is_finite (py_add x y)
       \<and> \<bar>float_value (py_add x y) - (float_value x + float_value y)\<bar>
           \<le> \<bar>float_value x + float_value y\<bar> / 2 ^ 53 + 1 / 2 ^ 64"
proof -
  from assms(1) obtain s q where x: "x = Finite s q" "0 \<le> q" by (rule is_finite_cases)
  from assms(2) obtain t r where y: "y = Finite t r" "0 \<le> r" by (rule is_finite_cases)
  define v where "v = signed s q + signed t r"
  have fv: "float_value x + float_value y = v" by (simp add: x y v_def)
  show ?thesis
  proof (cases "v = 0")
    case True
    then show ?thesis
      unfolding fv by (simp add: x(1) y(1) v_def [symmetric] signed_zero)
  next
    case False
    have s: "signed (v < 0) \<bar>v\<bar> = v" by (simp add: signed_def)
    have "\<bar>v\<bar> \<le> 2 ^ 100" using assms(3) fv by simp
    then show ?thesis
      unfolding fv using False round_double_value [of "\<bar>v\<bar>" "v < 0"]
      by (simp add: x(1) y(1) v_def [symmetric] Let_def s)
  qed
qed

lemma py_neg_value: "is_finite x \<Longrightarrow> is_finite (py_neg x) \<and> float_value (py_neg x) = - float_value x"
  by (cases x) (simp_all add: signed_def)

lemma py_sub_error:
  assumes "is_finite x" and "is_finite y"
    and "\<bar>float_value x - float_value y\<bar> \<le> 2 ^ 100"
  shows "is_finite (py_sub x y)
       \<and> \<bar>float_value (py_sub x y) - (float_value x - float_value y)\<bar>
           \<le> \<bar>float_value x - float_value y\<bar> / 2 ^ 53 + 1 / 2 ^ 64"
  using py_add_error [of x "py_neg y"] py_neg_value [of y] assms
  by (simp add: py_sub_def)

section \<open>Round trips\<close>

lemma py_mul_eval:
  "u = (s \<noteq> t) \<Longrightarrow> round_double u (q * r) = z \<Longrightarrow> py_mul (Finite s q) (Finite t r) = z"
  by simp

lemma py_truediv_eval:
  "r \<noteq> 0 \<Longrightarrow> u = (s \<noteq> t) \<Longrightarrow> round_double u (q / r) = z
   \<Longrightarrow> py_truediv (Finite s q) (Finite t r) = Inr z"
  by simp

lemma py_add_eval:
  "v = signed s q + signed t r \<Longrightarrow> v \<noteq> 0 \<Longrightarrow> u = (v < 0) \<Longrightarrow> w = \<bar>v\<bar>
   \<Longrightarrow> round_double u w = z \<Longrightarrow> py_add (Finite s q) (Finite t r) = z"
  by (simp add: Let_def)

lemma float_literal_int:
  "float_literal 9 = Finite False 9" "float_literal 5 = Finite False 5"
  "float_literal 32 = Finite False 32"
  by (simp_all add: float_literal_def round_double_numeral)

lemma tenth: "float_literal (1 / 10) = Finite False (3602879701896397 / 36028797018963968)"
  unfolding float_literal_def
  by (rule round_double_eval [where e = "- 4" and n = 7205759403792794]) simp_all

lemma tenth_to_fahrenheit:
  "celsius_to_fahrenheit (Finite False (3602879701896397 / 36028797018963968))
     = Inr (Finite False (4528932375274455 / 140737488355328))"
proof -
  have a: "py_mul (Finite False (3602879701896397 / 36028797018963968)) (Finite False 9)
      = Finite False (8106479329266893 / 9007199254740992)"
    by (rule py_mul_eval [where u = False], simp,
        rule round_double_eval [where e = "- 1" and n = 8106479329266893], simp_all)
  have b: "py_truediv (Finite False (8106479329266893 / 9007199254740992)) (Finite False 5)
      = Inr (Finite False (3242591731706757 / 18014398509481984))"
    by (rule py_truediv_eval [where u = False], simp, simp,
        rule round_double_eval [where e = "- 3" and n = 6485183463413514], simp_all)
  have c: "py_add (Finite False (3242591731706757 / 18014398509481984)) (Finite False 32)
      = Finite False (4528932375274455 / 140737488355328)"
    by (rule py_add_eval [where u = False
          and v = "579703344035130245 / 18014398509481984"
          and w = "579703344035130245 / 18014398509481984"],
        simp add: signed_def, simp, simp, simp,
        rule round_double_eval [where e = 5 and n = 4528932375274455], simp_all)
  show ?thesis
    by (simp only: celsius_to_fahrenheit_def float_literal_int a b c bind_def sum.case)
qed

lemma fahrenheit_back_to_tenth:
  "fahrenheit_to_celsius (Finite False (4528932375274455 / 140737488355328))
     = Inr (Finite False (3602879701896391 / 36028797018963968))"
proof -
  have a: "py_sub (Finite False (4528932375274455 / 140737488355328)) (Finite False 32)
      = Finite False (25332747903959 / 140737488355328)"
    unfolding py_sub_def py_neg.simps
    by (rule py_add_eval [where u = False
          and v = "25332747903959 / 140737488355328"
          and w = "25332747903959 / 140737488355328"],
        simp add: signed_def, simp, simp, simp,
        rule round_double_eval [where e = "- 3" and n = 6485183463413504], simp_all)
  have b: "py_mul (Finite False (25332747903959 / 140737488355328)) (Finite False 5)
      = Finite False (126663739519795 / 140737488355328)"
    by (rule py_mul_eval [where u = False], simp,
        rule round_double_eval [where e = "- 1" and n = 8106479329266880], simp_all)
  have c: "py_truediv (Finite False (126663739519795 / 140737488355328)) (Finite False 9)
      = Inr (Finite False (3602879701896391 / 36028797018963968))"
    by (rule py_truediv_eval [where u = False], simp, simp,
        rule round_double_eval [where e = "- 4" and n = 7205759403792782], simp_all)
  show ?thesis
    by (simp only: fahrenheit_to_celsius_def float_literal_int a b c)
qed

lemma far_meters_to_feet:
  "meters_to_feet (Finite False 10472962552)
     = Inr (Finite False (2251824461191819 / 65536))"
  unfolding meters_to_feet_def float_literal_feet
  by (simp only: sum.inject, rule py_mul_eval [where u = False], simp,
      rule round_double_eval [where e = 35 and n = 4503648922383638], simp_all)

lemma far_feet_to_meters:
  "feet_to_meters (Finite False (2251824461191819 / 65536))
     = Inr (Finite False (5490848590462977 / 524288))"
  unfolding feet_to_meters_def float_literal_feet
  by (rule py_truediv_eval [where u = False], simp, simp,
      rule round_double_eval [where e = 33 and n = 5490848590462977], simp_all)

lemma err_bound:
  fixes v w :: rat
  assumes "\<bar>v - w\<bar> \<le> \<bar>w\<bar> / 2 ^ 53 + 1 / 2 ^ 64" and "\<bar>w\<bar> \<le> b"
  shows "\<bar>v - w\<bar> \<le> b / 2 ^ 53 + 1 / 2 ^ 64"
proof -
  have "\<bar>w\<bar> / 2 ^ 53 \<le> b / 2 ^ 53"
    using assms(2) by (intro divide_right_mono) simp_all
  with assms(1) show ?thesis by linarith
qed

lemma distance_round_trip:
  assumes "is_finite x" and "\<bar>float_value x\<bar> \<le> 10 ^ 9"
  shows "\<exists>y z. meters_to_feet x = Inr y \<and> feet_to_meters y = Inr z \<and> is_finite z
           \<and> \<bar>float_value z - float_value x\<bar> \<le> 1 / 10 ^ 6"
proof -
  define K where "K = Finite False (7387794900731109 / 2251799813685248)"
  define k :: rat where "k = 7387794900731109 / 2251799813685248"
  define X where "X = float_value x"
  define a where "a = py_mul x K"
  define A where "A = float_value a"
  have K: "is_finite K" "float_value K = k" "float_value K \<noteq> 0"
    by (simp_all add: K_def k_def signed_def)
  have k: "3 \<le> k" "k \<le> 4" by (simp_all add: k_def)
  have X: "\<bar>X\<bar> \<le> 1000000000" using assms(2) by (simp add: X_def)
  have w1: "\<bar>X * k\<bar> \<le> 4000000000"
  proof -
    have "\<bar>X * k\<bar> = \<bar>X\<bar> * k" using k by (simp add: abs_mult)
    also have "\<dots> \<le> 1000000000 * 4"
      using X k by (intro mult_mono) simp_all
    finally show ?thesis by simp
  qed
  then have "\<bar>X * k\<bar> \<le> 2 ^ 100" by simp
  with py_mul_error [OF assms(1) K(1)]
  have a: "is_finite a" and ea: "\<bar>A - X * k\<bar> \<le> \<bar>X * k\<bar> / 2 ^ 53 + 1 / 2 ^ 64"
    by (simp_all add: a_def A_def X_def K(2))
  from err_bound [OF ea w1] have d1: "\<bar>A - X * k\<bar> \<le> 1 / 2000000"
    by simp
  have d2: "\<bar>A / k - X\<bar> \<le> 1 / 2000000 / 3"
  proof -
    have "A / k - X = (A - X * k) / k" using k by (simp add: field_simps)
    then have "\<bar>A / k - X\<bar> = \<bar>A - X * k\<bar> / k" using k by (simp add: abs_divide)
    also have "\<dots> \<le> (1 / 2000000) / 3"
      using d1 k by (intro frac_le) simp_all
    finally show ?thesis .
  qed
  with X have w2: "\<bar>A / k\<bar> \<le> 4000000000" by linarith
  then have "\<bar>A / k\<bar> \<le> 2 ^ 100" by simp
  with py_truediv_error [OF a K(1) K(3)] obtain z
    where z: "py_truediv a K = Inr z" "is_finite z"
      and ez: "\<bar>float_value z - A / k\<bar> \<le> \<bar>A / k\<bar> / 2 ^ 53 + 1 / 2 ^ 64"
    by (auto simp: A_def K(2))
  from err_bound [OF ez w2] have d3: "\<bar>float_value z - A / k\<bar> \<le> 1 / 2000000"
    by simp
  from d2 d3 have "\<bar>float_value z - X\<bar> \<le> 1 / 1000000"
    by linarith
  then have "\<bar>float_value z - X\<bar> \<le> 1 / 10 ^ 6"
    by simp
  moreover have "meters_to_feet x = Inr a"
    unfolding meters_to_feet_def float_literal_feet by (simp add: a_def K_def)
  moreover have "feet_to_meters a = Inr z"
    unfolding feet_to_meters_def float_literal_feet using z(1) by (simp add: K_def)
  ultimately show ?thesis using z(2) by (auto simp: X_def)
qed

lemma temperature_round_trip:
  assumes "is_finite x" and "\<bar>float_value x\<bar> \<le> 10 ^ 6"
  shows "\<exists>y z. celsius_to_fahrenheit x = Inr y \<and> fahrenheit_to_celsius y = Inr z
           \<and> is_finite z \<and> \<bar>float_value z - float_value x\<bar> \<le> 1 / 10 ^ 6"
proof -
  define X where "X = float_value x"
  define L9 where "L9 = Finite False 9"
  define L5 where "L5 = Finite False 5"
  define L32 where "L32 = Finite False 32"
  have L: "is_finite L9" "is_finite L5" "is_finite L32"
    "float_value L9 = 9" "float_value L5 = 5" "float_value L32 = 32"
    by (simp_all add: L9_def L5_def L32_def signed_def)
  have L0: "float_value L9 \<noteq> 0" "float_value L5 \<noteq> 0"
    by (simp_all add: L)
  have X: "\<bar>X\<bar> \<le> 1000000" using assms(2) by (simp add: X_def)
  \<comment> \<open>\<open>x * 9\<close>\<close>
  define a where "a = py_mul x L9"
  define A where "A = float_value a"
  from X have wa: "\<bar>X * 9\<bar> \<le> 10000000" by linarith
  then have "\<bar>X * 9\<bar> \<le> 2 ^ 100" by simp
  with py_mul_error [OF assms(1) L(1)]
  have a: "is_finite a" and ea: "\<bar>A - X * 9\<bar> \<le> \<bar>X * 9\<bar> / 2 ^ 53 + 1 / 2 ^ 64"
    by (simp_all add: a_def A_def X_def L)
  from err_bound [OF ea wa] have da: "\<bar>A - X * 9\<bar> \<le> 1 / 100000000" by simp
  \<comment> \<open>\<open>/ 5\<close>\<close>
  from wa da have wb: "\<bar>A / 5\<bar> \<le> 10000000" by linarith
  then have "\<bar>A / 5\<bar> \<le> 2 ^ 100" by simp
  with py_truediv_error [OF a L(2) L0(2)] obtain b
    where b: "py_truediv a L5 = Inr b" "is_finite b"
      and eb: "\<bar>float_value b - A / 5\<bar> \<le> \<bar>A / 5\<bar> / 2 ^ 53 + 1 / 2 ^ 64"
    by (auto simp: A_def L)
  define B where "B = float_value b"
  from err_bound [OF eb wb] have db: "\<bar>B - A / 5\<bar> \<le> 1 / 100000000"
    by (simp add: B_def)
  \<comment> \<open>\<open>+ 32\<close>\<close>
  define f where "f = py_add b L32"
  define F where "F = float_value f"
  from wb db have wf: "\<bar>B + 32\<bar> \<le> 10000100" by linarith
  then have "\<bar>B + 32\<bar> \<le> 2 ^ 100" by simp
  with py_add_error [OF b(2) L(3)]
  have f: "is_finite f" and ef: "\<bar>F - (B + 32)\<bar> \<le> \<bar>B + 32\<bar> / 2 ^ 53 + 1 / 2 ^ 64"
    by (simp_all add: f_def F_def B_def L)
  from err_bound [OF ef wf] have df: "\<bar>F - (B + 32)\<bar> \<le> 1 / 100000000" by simp
  have to_f: "celsius_to_fahrenheit x = Inr f"
    using b(1)
    by (simp add: celsius_to_fahrenheit_def float_literal_int a_def f_def bind_def
        L9_def L5_def L32_def)
  \<comment> \<open>\<open>- 32\<close>\<close>
  define g where "g = py_sub f L32"
  define G where "G = float_value g"
  from wf df have wg: "\<bar>F - 32\<bar> \<le> 10000200" by linarith
  then have "\<bar>F - 32\<bar> \<le> 2 ^ 100" by simp
  with py_sub_error [OF f L(3)]
  have g: "is_finite g" and eg: "\<bar>G - (F - 32)\<bar> \<le> \<bar>F - 32\<bar> / 2 ^ 53 + 1 / 2 ^ 64"
    by (simp_all add: g_def G_def F_def L)
  from err_bound [OF eg wg] have dg: "\<bar>G - (F - 32)\<bar> \<le> 1 / 100000000" by simp
  \<comment> \<open>\<open>* 5\<close>\<close>
  define h where "h = py_mul g L5"
  define H where "H = float_value h"
  from wg dg have wh: "\<bar>G * 5\<bar> \<le> 100000000" by linarith
  then have "\<bar>G * 5\<bar> \<le> 2 ^ 100" by simp
  with py_mul_error [OF g L(2)]
  have h: "is_finite h" and eh: "\<bar>H - G * 5\<bar> \<le> \<bar>G * 5\<bar> / 2 ^ 53 + 1 / 2 ^ 64"
    by (simp_all add: h_def H_def G_def L)
  from err_bound [OF eh wh] have dh: "\<bar>H - G * 5\<bar> \<le> 1 / 10000000" by simp
  \<comment> \<open>\<open>/ 9\<close>\<close>
  from wh dh have wc: "\<bar>H / 9\<bar> \<le> 100000000" by linarith
  then have "\<bar>H / 9\<bar> \<le> 2 ^ 100" by simp
  with py_truediv_error [OF h L(1) L0(1)] obtain z
    where z: "py_truediv h L9 = Inr z" "is_finite z"
      and ez: "\<bar>float_value z - H / 9\<bar> \<le> \<bar>H / 9\<bar> / 2 ^ 53 + 1 / 2 ^ 64"
    by (auto simp: H_def L)
  from err_bound [OF ez wc] have dz: "\<bar>float_value z - H / 9\<bar> \<le> 1 / 10000000" by simp
  have to_c: "fahrenheit_to_celsius f = Inr z"
    using z(1)
    by (simp add: fahrenheit_to_celsius_def float_literal_int g_def h_def
        L9_def L5_def L32_def)
  from da db df dg dh dz have "\<bar>float_value z - X\<bar> \<le> 1 / 1000000"
    by linarith
  then have "\<bar>float_value z - float_value x\<bar> \<le> 1 / 10 ^ 6"
    by (simp add: X_def)
  with to_f to_c z(2) show ?thesis by blast
qed

lemma py_float_tenth:
  "py_float (py_str ''0.1'') = Inr (Finite False (3602879701896397 / 36028797018963968))"
  by (simp add: float_parse_defs string_defs tenth [unfolded float_literal_def])

text \<open>
  C8, as the spec's formulas have it in binary64 arithmetic, where every operation
  rounds. For a finite distance of magnitude up to \<open>10\<^sup>9\<close> the round trip through feet
  returns a finite float within \<open>10\<^sup>-\<^sup>6\<close> of it; for a finite temperature of magnitude up
  to \<open>10\<^sup>6\<close> the round trip through Fahrenheit returns a finite float within \<open>10\<^sup>-\<^sup>6\<close>
  of it. Neither round trip is exact in general.
\<close>

theorem round_trip_tolerance:
  assumes "is_finite x"
  shows "(\<bar>float_value x\<bar> \<le> 10 ^ 9
          \<longrightarrow> (\<exists>y z. meters_to_feet x = Inr y \<and> feet_to_meters y = Inr z \<and> is_finite z
                \<and> \<bar>float_value z - float_value x\<bar> \<le> 1 / 10 ^ 6))
       \<and> (\<bar>float_value x\<bar> \<le> 10 ^ 6
          \<longrightarrow> (\<exists>y z. celsius_to_fahrenheit x = Inr y \<and> fahrenheit_to_celsius y = Inr z
                \<and> is_finite z \<and> \<bar>float_value z - float_value x\<bar> \<le> 1 / 10 ^ 6))"
  using distance_round_trip [OF assms] temperature_round_trip [OF assms] by blast

theorem round_trip_tolerance_witness:
  "is_finite (Finite False 41)
   \<and> \<bar>float_value (Finite False 41)\<bar> \<le> 10 ^ 9 \<and> \<bar>float_value (Finite False 41)\<bar> \<le> 10 ^ 6
   \<and> (\<exists>y z. meters_to_feet (Finite False 41) = Inr y \<and> feet_to_meters y = Inr z
          \<and> is_finite z \<and> \<bar>float_value z - float_value (Finite False 41)\<bar> \<le> 1 / 10 ^ 6)
   \<and> (\<exists>y z. celsius_to_fahrenheit (Finite False 41) = Inr y
          \<and> fahrenheit_to_celsius y = Inr z
          \<and> is_finite z \<and> \<bar>float_value z - float_value (Finite False 41)\<bar> \<le> 1 / 10 ^ 6)"
proof -
  have f: "is_finite (Finite False 41)" by simp
  have b: "\<bar>float_value (Finite False 41)\<bar> \<le> 10 ^ 9"
    "\<bar>float_value (Finite False 41)\<bar> \<le> 10 ^ 6"
    by (simp_all add: signed_def)
  from round_trip_tolerance [OF f] f b show ?thesis by blast
qed

text \<open>
  The claim as the spec states it fails in both parts. The temperature \<^verbatim>\<open>0.1\<close> comes
  back from Fahrenheit as \<^verbatim>\<open>0.09999999999999984\<close>, another float; the distance
  \<^verbatim>\<open>10472962552.0\<close> comes back from feet more than \<open>10\<^sup>-\<^sup>6\<close> away.
\<close>

theorem round_trip_counterexample:
  "py_float (py_str ''0.1'') = Inr (Finite False (3602879701896397 / 36028797018963968))
   \<and> celsius_to_fahrenheit (Finite False (3602879701896397 / 36028797018963968))
       = Inr (Finite False (4528932375274455 / 140737488355328))
   \<and> fahrenheit_to_celsius (Finite False (4528932375274455 / 140737488355328))
       = Inr (Finite False (3602879701896391 / 36028797018963968))
   \<and> Finite False (3602879701896391 / 36028797018963968)
       \<noteq> Finite False (3602879701896397 / 36028797018963968)
   \<and> meters_to_feet (Finite False 10472962552)
       = Inr (Finite False (2251824461191819 / 65536))
   \<and> feet_to_meters (Finite False (2251824461191819 / 65536))
       = Inr (Finite False (5490848590462977 / 524288))
   \<and> 1 / 10 ^ 6 < \<bar>float_value (Finite False (5490848590462977 / 524288))
                     - float_value (Finite False 10472962552)\<bar>"
proof -
  have n: "Finite False (3602879701896391 / 36028797018963968)
      \<noteq> Finite False (3602879701896397 / 36028797018963968)"
    by simp
  have d: "1 / 10 ^ 6 < \<bar>float_value (Finite False (5490848590462977 / 524288))
                     - float_value (Finite False 10472962552)\<bar>"
    by (simp add: signed_def)
  from py_float_tenth tenth_to_fahrenheit fahrenheit_back_to_tenth n far_meters_to_feet
    far_feet_to_meters d
  show ?thesis by (intro conjI)
qed

section \<open>Which rows end the run\<close>

lemma py_split_nonempty: "py_split sep s \<noteq> []"
  by (induction s) auto

lemma length_py_split: "length (py_split sep s) = Suc (count_list s sep)"
proof (induction s)
  case Nil
  then show ?case by simp
next
  case (Cons c s)
  have "length (tl (py_split sep s)) = count_list s sep"
    using Cons by simp
  then show ?case using Cons by simp
qed

lemma parse_reading_count:
  "count_list reading degree_sign \<noteq> 1 \<Longrightarrow> parse_reading reading = Inl (ValueError_unpack 2)"
  "count_list reading degree_sign = 1 \<Longrightarrow> \<exists>v u. parse_reading reading = Inr (v, u)"
proof -
  assume "count_list reading degree_sign \<noteq> 1"
  then have "length (py_split degree_sign reading) \<noteq> 2"
    by (simp add: length_py_split)
  then show "parse_reading reading = Inl (ValueError_unpack 2)"
    by (auto simp: parse_reading_def split: list.splits)
next
  assume "count_list reading degree_sign = 1"
  then have "length (py_split degree_sign reading) = 2"
    by (simp add: length_py_split)
  then obtain a b where "py_split degree_sign reading = [a, b]"
    by (auto simp: length_Suc_conv numeral_2_eq_2)
  then show "\<exists>v u. parse_reading reading = Inr (v, u)"
    by (simp add: parse_reading_def)
qed

lemma convert_row_wrong_length:
  "length row \<noteq> 3 \<Longrightarrow> convert_row cv tt td row = Inl (ValueError_unpack 3)"
  by (auto simp: convert_row_def split: list.splits)

lemma convert_distance_raises:
  assumes "convert_distance cv td dist_value dist_unit distance = Inl e"
  shows "((td = py_str ''m'' \<and> dist_unit = py_str ''ft'')
            \<and> (py_float dist_value = Inl e
                \<or> (\<exists>x. py_float dist_value = Inr x \<and> to_m cv x = Inl e)))
       \<or> ((td = py_str ''f'' \<and> dist_unit = py_str ''m'')
            \<and> (py_float dist_value = Inl e
                \<or> (\<exists>x. py_float dist_value = Inr x \<and> to_ft cv x = Inl e)))"
  using assms by (auto simp: convert_distance_def bind_def split: if_splits sum.splits)

lemma convert_temperature_raises:
  assumes "convert_temperature cv tt temp_value temp_unit reading = Inl e"
  shows "((tt = py_str ''C'' \<and> 70 \<in> set temp_unit)
            \<and> (py_float temp_value = Inl e
                \<or> (\<exists>x. py_float temp_value = Inr x \<and> to_C cv x = Inl e)))
       \<or> ((tt = py_str ''F'' \<and> 67 \<in> set temp_unit)
            \<and> (py_float temp_value = Inl e
                \<or> (\<exists>x. py_float temp_value = Inr x \<and> to_F cv x = Inl e)))"
  using assms by (auto simp: convert_temperature_def bind_def split: if_splits sum.splits)

lemma convert_data_ok:
  assumes "map (convert_row cv tt td) rows = map Inr outs"
  shows "convert_data cv (header # rows) tt td = (header # outs, None)"
  using write_rows_ok [OF assms] by (simp add: convert_data_def)

text \<open>
  C9, as the code has it. Rows are processed in the order of the input, and the first
  row on which the code raises an exception ends the run: when the rows \<open>pre\<close> before it
  convert to \<open>outs\<close> and the row \<open>bad\<close> raises \<open>e\<close>, the run ends with \<open>e\<close> and the
  output holds the header and \<open>outs\<close>, in that order, and nothing of \<open>bad\<close> or of the
  rows \<open>post\<close> after it; when no row raises, every row is written. A row raises when it
  has not three fields, when its distance is empty, when its reading has not exactly one
  degree sign, and otherwise only when a converting branch is taken and \<^verbatim>\<open>float\<close> or the
  conversion function raises there. Any other row is written, whatever its fields hold.
\<close>

theorem fail_stop:
  "(map (convert_row cv tt td) pre = map Inr outs \<and> convert_row cv tt td bad = Inl e
      \<longrightarrow> convert_data cv (header # pre @ bad # post) tt td = (header # outs, Some e))
   \<and> (map (convert_row cv tt td) rows = map Inr outs
      \<longrightarrow> convert_data cv (header # rows) tt td = (header # outs, None))
   \<and> (length row \<noteq> 3 \<longrightarrow> convert_row cv tt td row = Inl (ValueError_unpack 3))
   \<and> convert_row cv tt td [date, [], reading] = Inl IndexError
   \<and> (distance \<noteq> [] \<and> count_list reading degree_sign \<noteq> 1
      \<longrightarrow> convert_row cv tt td [date, distance, reading] = Inl (ValueError_unpack 2))
   \<and> (distance \<noteq> [] \<and> count_list reading degree_sign = 1
      \<longrightarrow> (\<exists>dist_value dist_unit temp_value temp_unit.
            parse_distance distance = Inr (dist_value, dist_unit)
            \<and> parse_reading reading = Inr (temp_value, temp_unit)
            \<and> convert_row cv tt td [date, distance, reading] =
                bind (convert_distance cv td dist_value dist_unit distance) (\<lambda>new_distance.
                bind (convert_temperature cv tt temp_value temp_unit reading) (\<lambda>new_reading.
                Inr [date, new_distance, new_reading]))))
   \<and> (convert_distance cv td v u distance = Inl e'
      \<longrightarrow> ((td = py_str ''m'' \<and> u = py_str ''ft'')
            \<and> (py_float v = Inl e' \<or> (\<exists>x. py_float v = Inr x \<and> to_m cv x = Inl e')))
          \<or> ((td = py_str ''f'' \<and> u = py_str ''m'')
            \<and> (py_float v = Inl e' \<or> (\<exists>x. py_float v = Inr x \<and> to_ft cv x = Inl e'))))
   \<and> (convert_temperature cv tt v u reading = Inl e'
      \<longrightarrow> ((tt = py_str ''C'' \<and> 70 \<in> set u)
            \<and> (py_float v = Inl e' \<or> (\<exists>x. py_float v = Inr x \<and> to_C cv x = Inl e')))
          \<or> ((tt = py_str ''F'' \<and> 67 \<in> set u)
            \<and> (py_float v = Inl e' \<or> (\<exists>x. py_float v = Inr x \<and> to_F cv x = Inl e'))))"
proof (intro conjI impI)
  assume "map (convert_row cv tt td) pre = map Inr outs \<and> convert_row cv tt td bad = Inl e"
  then show "convert_data cv (header # pre @ bad # post) tt td = (header # outs, Some e)"
    by (simp add: convert_data_fail)
next
  assume "map (convert_row cv tt td) rows = map Inr outs"
  then show "convert_data cv (header # rows) tt td = (header # outs, None)"
    by (rule convert_data_ok)
next
  assume "length row \<noteq> 3"
  then show "convert_row cv tt td row = Inl (ValueError_unpack 3)"
    by (rule convert_row_wrong_length)
next
  show "convert_row cv tt td [date, [], reading] = Inl IndexError"
    by (simp add: convert_row_def bind_def parse_distance_empty)
next
  assume a: "distance \<noteq> [] \<and> count_list reading degree_sign \<noteq> 1"
  then obtain dv du where "parse_distance distance = Inr (dv, du)"
    using parse_distance_nonempty by blast
  with a show "convert_row cv tt td [date, distance, reading] = Inl (ValueError_unpack 2)"
    by (simp add: convert_row_def bind_def parse_reading_count(1))
next
  assume a: "distance \<noteq> [] \<and> count_list reading degree_sign = 1"
  then obtain dv du where d: "parse_distance distance = Inr (dv, du)"
    using parse_distance_nonempty by blast
  from a obtain tv tu where r: "parse_reading reading = Inr (tv, tu)"
    using parse_reading_count(2) by blast
  from d r convert_row_steps [OF d r, of cv tt td date]
  show "\<exists>dist_value dist_unit temp_value temp_unit.
            parse_distance distance = Inr (dist_value, dist_unit)
            \<and> parse_reading reading = Inr (temp_value, temp_unit)
            \<and> convert_row cv tt td [date, distance, reading] =
                bind (convert_distance cv td dist_value dist_unit distance) (\<lambda>new_distance.
                bind (convert_temperature cv tt temp_value temp_unit reading) (\<lambda>new_reading.
                Inr [date, new_distance, new_reading]))"
    by blast
next
  assume "convert_distance cv td v u distance = Inl e'"
  then show "((td = py_str ''m'' \<and> u = py_str ''ft'')
            \<and> (py_float v = Inl e' \<or> (\<exists>x. py_float v = Inr x \<and> to_m cv x = Inl e')))
          \<or> ((td = py_str ''f'' \<and> u = py_str ''m'')
            \<and> (py_float v = Inl e' \<or> (\<exists>x. py_float v = Inr x \<and> to_ft cv x = Inl e')))"
    by (rule convert_distance_raises)
next
  assume "convert_temperature cv tt v u reading = Inl e'"
  then show "((tt = py_str ''C'' \<and> 70 \<in> set u)
            \<and> (py_float v = Inl e' \<or> (\<exists>x. py_float v = Inr x \<and> to_C cv x = Inl e')))
          \<or> ((tt = py_str ''F'' \<and> 67 \<in> set u)
            \<and> (py_float v = Inl e' \<or> (\<exists>x. py_float v = Inr x \<and> to_F cv x = Inl e')))"
    by (rule convert_temperature_raises)
qed

theorem fail_stop_witness:
  "map (convert_row spec_convertor (py_str ''C'') (py_str ''m'')) [example_row]
     = map Inr [example_row]
   \<and> convert_row spec_convertor (py_str ''C'') (py_str ''m'')
       [py_str ''2024-01-02'', py_str ''41m'', py_str ''10C'']
     = Inl (ValueError_unpack 2)
   \<and> convert_data spec_convertor
       [example_header, example_row,
        [py_str ''2024-01-02'', py_str ''41m'', py_str ''10C''], example_row]
       (py_str ''C'') (py_str ''m'')
     = ([example_header, example_row], Some (ValueError_unpack 2))
   \<and> convert_data spec_convertor [example_header, example_row] (py_str ''C'') (py_str ''m'')
     = ([example_header, example_row], None)
   \<and> length [py_str ''2024-01-02'', py_str ''41m''] \<noteq> 3
   \<and> convert_row spec_convertor (py_str ''C'') (py_str ''m'')
       [py_str ''2024-01-02'', py_str ''41m''] = Inl (ValueError_unpack 3)
   \<and> py_str ''41m'' \<noteq> [] \<and> count_list (py_str ''10C'') degree_sign \<noteq> 1"
proof -
  have pre: "map (convert_row spec_convertor (py_str ''C'') (py_str ''m'')) [example_row]
      = map Inr [example_row]"
    by (simp add: example_row_unchanged)
  have c: "py_str ''41m'' \<noteq> [] \<and> count_list (py_str ''10C'') degree_sign \<noteq> 1"
    by (simp add: string_defs)
  note t = fail_stop [where cv = spec_convertor and tt = "py_str ''C''" and td = "py_str ''m''"
      and pre = "[example_row]" and outs = "[example_row]" and header = example_header
      and bad = "[py_str ''2024-01-02'', py_str ''41m'', py_str ''10C'']"
      and post = "[example_row]" and e = "ValueError_unpack 2" and rows = "[example_row]"
      and row = "[py_str ''2024-01-02'', py_str ''41m'']"
      and date = "py_str ''2024-01-02''" and distance = "py_str ''41m''"
      and reading = "py_str ''10C''"]
  from t c have bad: "convert_row spec_convertor (py_str ''C'') (py_str ''m'')
      [py_str ''2024-01-02'', py_str ''41m'', py_str ''10C''] = Inl (ValueError_unpack 2)"
    by blast
  have l: "length [py_str ''2024-01-02'', py_str ''41m''] \<noteq> 3"
    by simp
  from t pre bad have "convert_data spec_convertor
       ([example_header] @ [example_row] @
        [py_str ''2024-01-02'', py_str ''41m'', py_str ''10C''] # [example_row])
       (py_str ''C'') (py_str ''m'')
     = ([example_header, example_row], Some (ValueError_unpack 2))"
    by simp
  moreover from t pre have "convert_data spec_convertor [example_header, example_row]
       (py_str ''C'') (py_str ''m'') = ([example_header, example_row], None)"
    by blast
  moreover from t l have "convert_row spec_convertor (py_str ''C'') (py_str ''m'')
       [py_str ''2024-01-02'', py_str ''41m''] = Inl (ValueError_unpack 3)"
    by blast
  ultimately show ?thesis using pre bad l c by simp
qed

text \<open>
  The claim as the spec states it fails for rows that the spec calls malformed and on
  which the code raises nothing. With the targets \<^verbatim>\<open>C\<close> and \<^verbatim>\<open>m\<close>, a row whose values are
  no numbers (\<^verbatim>\<open>abcm\<close>, \<^verbatim>\<open>abc\<degree>C\<close>), a row whose distance is only its suffix (\<^verbatim>\<open>m\<close>) and a
  row whose units are not recognized (\<^verbatim>\<open>41yd\<close>, \<^verbatim>\<open>10\<degree>K\<close>) are written as they are, and the
  run goes on to the row after them and ends without an exception.
\<close>

theorem fail_stop_counterexample:
  "py_float (py_str ''abc'') = Inl (ValueError_float (py_str ''abc''))
   \<and> parse_distance (py_str ''m'') = Inr ([], py_str ''m'')
   \<and> parse_distance (py_str ''41yd'') = Inr (py_str ''41y'', py_str ''d'')
   \<and> convert_data spec_convertor
       [example_header,
        [py_str ''2024-01-01'', py_str ''abcm'', py_str ''abc'' @ degree_sign # py_str ''C''],
        [py_str ''2024-01-02'', py_str ''m'', py_str ''10'' @ degree_sign # py_str ''C''],
        [py_str ''2024-01-03'', py_str ''41yd'', py_str ''10'' @ degree_sign # py_str ''K''],
        [py_str ''2024-01-04'', py_str ''41m'', py_str ''10'' @ degree_sign # py_str ''C'']]
       (py_str ''C'') (py_str ''m'')
     = ([example_header,
         [py_str ''2024-01-01'', py_str ''abcm'', py_str ''abc'' @ degree_sign # py_str ''C''],
         [py_str ''2024-01-02'', py_str ''m'', py_str ''10'' @ degree_sign # py_str ''C''],
         [py_str ''2024-01-03'', py_str ''41yd'', py_str ''10'' @ degree_sign # py_str ''K''],
         [py_str ''2024-01-04'', py_str ''41m'', py_str ''10'' @ degree_sign # py_str ''C'']],
        None)"
  by (simp add: py_float_abc) (simp add: convert_data_def row_defs string_defs)

end
